theory Spec2Isabelle
  imports Main "HOL-Library.Sublist" "HOL-Library.AList"
begin

section \<open>Strings as the scripts use them\<close>

text \<open>
  Strings are lists of bytes. Only ASCII letters change under case folding here: the
  dangerous-click expression carries the \<open>i\<close> flag without the \<open>u\<close> flag, and it is made of
  ASCII letters and spaces only, so a character of the subject matches a letter of the
  pattern exactly when it is that letter in upper or lower case.
\<close>

definition toLowerChar :: "char \<Rightarrow> char" where
  "toLowerChar c =
     (case map_of (zip ''ABCDEFGHIJKLMNOPQRSTUVWXYZ'' ''abcdefghijklmnopqrstuvwxyz'') c of
        None \<Rightarrow> c
      | Some d \<Rightarrow> d)"

definition toLowerCase :: "string \<Rightarrow> string" where
  "toLowerCase s = map toLowerChar s"

text \<open>\<open>s.startsWith(w)\<close> and \<open>s.includes(w)\<close>.\<close>

fun startsWith :: "string \<Rightarrow> string \<Rightarrow> bool" where
  "startsWith s [] = True"
| "startsWith [] (c # w) = False"
| "startsWith (d # s) (c # w) = (d = c \<and> startsWith s w)"

fun str_includes :: "string \<Rightarrow> string \<Rightarrow> bool" where
  "str_includes [] w = (w = [])"
| "str_includes (d # s) w = (startsWith (d # s) w \<or> str_includes s w)"

text \<open>\<open>s.trim()\<close>, on the ASCII white space characters.\<close>

definition isSpace :: "char \<Rightarrow> bool" where
  "isSpace c = (c \<in> set [CHR '' '', CHR 0x09, CHR 0x0A, CHR 0x0B, CHR 0x0C, CHR 0x0D])"

definition trim :: "string \<Rightarrow> string" where
  "trim s = rev (dropWhile isSpace (rev (dropWhile isSpace s)))"

text \<open>The decimal rendering of a number inside a template literal.\<close>

definition digit_char :: "nat \<Rightarrow> char" where
  "digit_char d = ''0123456789'' ! d"

fun string_of_nat :: "nat \<Rightarrow> string" where
  "string_of_nat n =
     (if n < 10 then [digit_char n] else string_of_nat (n div 10) @ [digit_char (n mod 10)])"

declare string_of_nat.simps [simp del]

section \<open>JSON values\<close>

text \<open>
  What \<open>JSON.parse\<close> returns, and the \<open>unknown\<close> payloads the backend receives. Numbers are
  integers here; an object carries each key once.
\<close>

datatype json =
    JNull
  | JBool bool
  | JNum int
  | JStr string
  | JArr "json list"
  | JObj "(string \<times> json) list"

text \<open>Property access \<open>v[key]\<close> on a parsed value; \<open>None\<close> is \<open>undefined\<close>.\<close>

definition jprop :: "json \<Rightarrow> string \<Rightarrow> json option" where
  "jprop v key = (case v of JObj kvs \<Rightarrow> map_of kvs key | _ \<Rightarrow> None)"

text \<open>JavaScript truthiness of a property that may be missing.\<close>

fun truthy :: "json option \<Rightarrow> bool" where
  "truthy None = False"
| "truthy (Some JNull) = False"
| "truthy (Some (JBool b)) = b"
| "truthy (Some (JNum n)) = (n \<noteq> 0)"
| "truthy (Some (JStr s)) = (s \<noteq> [])"
| "truthy (Some (JArr xs)) = True"
| "truthy (Some (JObj kvs)) = True"

text \<open>\<open>typeof v === "string"\<close>, returning the string.\<close>

fun as_string :: "json option \<Rightarrow> string option" where
  "as_string (Some (JStr s)) = Some s"
| "as_string _ = None"

text \<open>\<open>v && typeof v === "object"\<close>: objects and arrays, not \<open>null\<close>.\<close>

fun is_object :: "json option \<Rightarrow> bool" where
  "is_object (Some (JObj kvs)) = True"
| "is_object (Some (JArr xs)) = True"
| "is_object _ = False"

section \<open>The extension's background script: approval gate\<close>

text \<open>
  \<open>DANGEROUS_CLICK_RE\<close> is an unanchored alternation of literal words under the \<open>i\<close> flag;
  \<open>RegExp.test\<close> answers whether some alternative occurs somewhere in the subject.
\<close>

definition DANGEROUS_CLICK_WORDS :: "string list" where
  "DANGEROUS_CLICK_WORDS =
     [''delete'', ''remove'', ''purchase'', ''buy'', ''checkout'', ''send'', ''payment'', ''pay'',
      ''place order'', ''confirm order'', ''submit payment'', ''transfer'', ''confirm'', ''submit'',
      ''withdraw'', ''irreversible'']"

definition DANGEROUS_CLICK_RE_test :: "string \<Rightarrow> bool" where
  "DANGEROUS_CLICK_RE_test s = list_ex (str_includes (toLowerCase s)) DANGEROUS_CLICK_WORDS"

text \<open>
  A \<open>tool_request\<close> as the background script reads it. The tool name comes off the wire and
  is any string. The \<open>params_\<close> fields are the string parameters the script reads, \<open>None\<close> for
  a missing key; \<open>ui_label\<close> is \<open>request.ui.label\<close>. The fields \<open>actionId\<close> and \<open>tool\<close> carry the
  prefix \<open>req_\<close>.
\<close>

record tool_request =
  req_actionId :: string
  req_tool :: string
  params_selector :: "string option"
  params_query :: "string option"
  params_url :: "string option"
  params_label :: "string option"
  params_text :: "string option"
  ui_label :: string

text \<open>\<open>String(v || "")\<close> for an optional string \<open>v\<close>.\<close>

definition StringOr :: "string option \<Rightarrow> string" where
  "StringOr v = (case v of None \<Rightarrow> [] | Some s \<Rightarrow> s)"

record pending_action =
  pa_actionId :: string
  pa_tool :: string
  pa_label :: string

text \<open>The commands sent to the content script of the active tab (\<open>kind: "copilot_tool"\<close>).\<close>

datatype page_command =
    Hud string
  | FindCmd string
  | HighlightCmd string string
  | ClickCmd string
  | TypeCmd string string

text \<open>Messages from the extension to the backend (session id and token left out).\<close>

datatype ext_message =
    UserApprovalMsg string bool
  | ToolResultOk string "json option"
  | ToolResultErr string string

datatype ext_effect =
    ToBackend ext_message
  | TabsSendMessage page_command
  | ExecuteScript
  | NavigateActiveTab string
  | BroadcastState
  | ApprovalNeeded pending_action

text \<open>
  How one call of \<open>chrome.tabs.sendMessage\<close> ends: with the response of the content script, or
  rejected with an error whose text is given.
\<close>

datatype page_answer =
    Reply "json option"
  | Fails string

record tab =
  tab_id :: "nat option"
  tab_url :: "string option"

text \<open>
  The mutable state of the background script (\<open>state\<close>, \<open>ws\<close>, \<open>pendingToolRequests\<close>) together
  with what it sees of the browser: the active tab, whether the content script can be
  injected, and the answers the page will give to the next calls, in order. The settlement
  of every call is taken from \<open>answers\<close>; the timer of \<open>withTimeout\<close> is not modelled.
  \<open>navigate_ok\<close> says how \<open>navigateActiveTab\<close> ends, which is one step of the browser here.
\<close>

record ext_state =
  autoRun :: bool
  socket_open :: bool
  pendingAction :: "pending_action option"
  pendingToolRequests :: "(string \<times> tool_request) list"
  activeTab :: "tab option"
  canInject :: bool
  navigate_ok :: "string + json"
  answers :: "page_answer list"
  ext_log :: "ext_effect list"

definition requiresManualApproval :: "ext_state \<Rightarrow> tool_request \<Rightarrow> bool" where
  "requiresManualApproval state request =
     (if req_tool request \<noteq> ''browser_click'' \<and> req_tool request \<noteq> ''browser_type'' then False
      else if \<not> autoRun state then True
      else if req_tool request \<noteq> ''browser_click'' then False
      else (let selector = StringOr (params_selector request);
                label = ui_label request
            in DANGEROUS_CLICK_RE_test (label @ '' '' @ selector)))"

definition ext_emit :: "ext_state \<Rightarrow> ext_effect \<Rightarrow> ext_state" where
  "ext_emit state e = state\<lparr>ext_log := ext_log state @ [e]\<rparr>"

text \<open>
  A function that can throw returns the message of the error, or \<open>None\<close>, beside the state
  it leaves behind.
\<close>

definition sendToBackend :: "ext_state \<Rightarrow> ext_message \<Rightarrow> string option \<times> ext_state" where
  "sendToBackend state message =
     (if \<not> socket_open state then (Some ''EXTENSION_NOT_READY'', state)
      else (None, ext_emit state (ToBackend message)))"

definition normalizeErrorCode :: "string \<Rightarrow> string" where
  "normalizeErrorCode message =
     (if message = ''EXTENSION_NOT_READY'' \<or> message = ''NO_ACTIVE_TAB'' \<or>
         message = ''PERMISSION_DENIED'' \<or> message = ''NOT_FOUND'' \<or> message = ''TIMEOUT'' \<or>
         message = ''CANCELLED''
      then message else ''EXTENSION_NOT_READY'')"

definition isRestrictedUrl :: "string option \<Rightarrow> bool" where
  "isRestrictedUrl url =
     (case url of
        None \<Rightarrow> True
      | Some u \<Rightarrow> u = [] \<or> startsWith u ''chrome://'' \<or> startsWith u ''edge://'' \<or> startsWith u ''about:'')"

text \<open>One \<open>chrome.tabs.sendMessage\<close>: the command goes to the page, the next answer comes back.\<close>

definition tabsSendMessage :: "ext_state \<Rightarrow> page_command \<Rightarrow> page_answer \<times> ext_state" where
  "tabsSendMessage state payload =
     (case answers state of
        [] \<Rightarrow> (Fails ''Error: Could not establish connection. Receiving end does not exist.'',
               ext_emit state (TabsSendMessage payload))
      | a # rest \<Rightarrow> (a, ext_emit (state\<lparr>answers := rest\<rparr>) (TabsSendMessage payload)))"

text \<open>
  The check of a response: its data when \<open>response.ok === true\<close>, else the text of the
  error thrown (\<open>String(error)\<close> of \<open>new Error(response?.error || "EXTENSION_NOT_READY")\<close>).
\<close>

definition checkResponse :: "page_answer \<Rightarrow> string + json option" where
  "checkResponse a =
     (case a of
        Fails m \<Rightarrow> Inl m
      | Reply None \<Rightarrow> Inl ''Error: EXTENSION_NOT_READY''
      | Reply (Some r) \<Rightarrow>
          (if jprop r ''ok'' = Some (JBool True) then Inr (jprop r ''data'')
           else (case as_string (jprop r ''error'') of
                   None \<Rightarrow> Inl ''Error: EXTENSION_NOT_READY''
                 | Some e \<Rightarrow> Inl (''Error: '' @ (if e = [] then ''EXTENSION_NOT_READY'' else e)))))"

definition sendToolMessageToActiveTab ::
  "ext_state \<Rightarrow> page_command \<Rightarrow> (string + json option) \<times> ext_state" where
  "sendToolMessageToActiveTab state payload =
     (case activeTab state of
        None \<Rightarrow> (Inl ''NO_ACTIVE_TAB'', state)
      | Some t \<Rightarrow>
          if tab_id t = None then (Inl ''NO_ACTIVE_TAB'', state)
          else if isRestrictedUrl (tab_url t) then (Inl ''PERMISSION_DENIED'', state)
          else
            let (a1, state1) = tabsSendMessage state payload in
            case checkResponse a1 of
              Inr d \<Rightarrow> (Inr d, state1)
            | Inl firstError \<Rightarrow>
                let failed = (if str_includes firstError ''Cannot access''
                              then ''PERMISSION_DENIED'' else ''EXTENSION_NOT_READY'');
                    state2 = ext_emit state1 ExecuteScript
                in if \<not> canInject state2 then (Inl failed, state2)
                   else
                     let (a2, state3) = tabsSendMessage state2 payload in
                     case checkResponse a2 of
                       Inr d \<Rightarrow> (Inr d, state3)
                     | Inl e \<Rightarrow> (Inl failed, state3))"

definition updateHud :: "ext_state \<Rightarrow> string \<Rightarrow> ext_state" where
  "updateHud state message = snd (sendToolMessageToActiveTab state (Hud message))"

text \<open>
  \<open>navigateActiveTab\<close>. \<open>normalizeUrl\<close> returns the empty string for a blank argument and a
  string starting with \<open>http://\<close> or \<open>https://\<close> otherwise, so the guard
  \<open>!targetUrl || isRestrictedUrl(targetUrl)\<close> holds exactly for a blank argument. The effect
  \<open>NavigateActiveTab url\<close> is \<open>chrome.tabs.update\<close> to the normalized URL followed by the wait
  for the load, taken as one step of the browser.
\<close>

definition navigateActiveTab :: "ext_state \<Rightarrow> string \<Rightarrow> (string + json option) \<times> ext_state" where
  "navigateActiveTab state url =
     (case activeTab state of
        None \<Rightarrow> (Inl ''NO_ACTIVE_TAB'', state)
      | Some t \<Rightarrow>
          if tab_id t = None then (Inl ''NO_ACTIVE_TAB'', state)
          else if trim url = [] then (Inl ''PERMISSION_DENIED'', state)
          else (case navigate_ok state of
                  Inl e \<Rightarrow> (Inl e, ext_emit state (NavigateActiveTab url))
                | Inr d \<Rightarrow> (Inr (Some d), ext_emit state (NavigateActiveTab url))))"

text \<open>The branch of \<open>executeToolRequest\<close> on the tool name, inside its \<open>try\<close>.\<close>

definition runTool :: "ext_state \<Rightarrow> tool_request \<Rightarrow> (string + json option) \<times> ext_state" where
  "runTool state request =
     (if req_tool request = ''browser_find''
        then sendToolMessageToActiveTab state (FindCmd (StringOr (params_query request)))
      else if req_tool request = ''browser_navigate''
        then navigateActiveTab state (StringOr (params_url request))
      else if req_tool request = ''browser_highlight''
        then sendToolMessageToActiveTab state
               (HighlightCmd (StringOr (params_selector request)) (StringOr (params_label request)))
      else if req_tool request = ''browser_click''
        then sendToolMessageToActiveTab state (ClickCmd (StringOr (params_selector request)))
      else if req_tool request = ''browser_type''
        then sendToolMessageToActiveTab state
               (TypeCmd (StringOr (params_selector request)) (StringOr (params_text request)))
      else (Inl ''EXTENSION_NOT_READY'', state))"

text \<open>The \<open>finally\<close> block of \<open>executeToolRequest\<close>.\<close>

definition executeFinally :: "ext_state \<Rightarrow> tool_request \<Rightarrow> ext_state" where
  "executeFinally state request =
     (let state1 = state\<lparr>pendingToolRequests :=
                      AList.delete (req_actionId request) (pendingToolRequests state)\<rparr>
      in case pendingAction state1 of
           None \<Rightarrow> state1
         | Some pa \<Rightarrow>
             if pa_actionId pa = req_actionId request
             then ext_emit (state1\<lparr>pendingAction := None\<rparr>) BroadcastState
             else state1)"

text \<open>The \<open>catch\<close> block of \<open>executeToolRequest\<close>, which may throw in turn.\<close>

definition executeCatch :: "ext_state \<Rightarrow> tool_request \<Rightarrow> string \<Rightarrow> string option \<times> ext_state" where
  "executeCatch state request error =
     (let code = normalizeErrorCode error;
          state1 = updateHud state (''Failed: '' @ code)
      in sendToBackend state1 (ToolResultErr (req_actionId request) code))"

definition executeToolRequest :: "ext_state \<Rightarrow> tool_request \<Rightarrow> string option \<times> ext_state" where
  "executeToolRequest state request =
     (let (r, state1) = runTool state request;
          (thrown, state2) =
            (case r of
               Inl error \<Rightarrow> executeCatch state1 request error
             | Inr resultData \<Rightarrow>
                 (let state1a = updateHud state1 ''Done'' in
                  case sendToBackend state1a (ToolResultOk (req_actionId request) resultData) of
                    (None, state1b) \<Rightarrow> (None, state1b)
                  | (Some error, state1b) \<Rightarrow> executeCatch state1b request error))
      in (thrown, executeFinally state2 request))"

definition onToolRequest :: "ext_state \<Rightarrow> tool_request \<Rightarrow> string option \<times> ext_state" where
  "onToolRequest state request =
     (let state1 = state\<lparr>pendingToolRequests :=
                      AList.update (req_actionId request) request (pendingToolRequests state)\<rparr>;
          state2 = updateHud state1 (''Copilot: '' @ ui_label request @ ''...'')
      in if requiresManualApproval state2 request
         then (let pa = \<lparr>pa_actionId = req_actionId request, pa_tool = req_tool request,
                          pa_label = ui_label request\<rparr>;
                   state3 = ext_emit (state2\<lparr>pendingAction := Some pa\<rparr>) BroadcastState
               in (None, ext_emit state3 (ApprovalNeeded pa)))
         else executeToolRequest state2 request)"

definition handleApproval :: "ext_state \<Rightarrow> string \<Rightarrow> bool \<Rightarrow> string option \<times> ext_state" where
  "handleApproval state actionId approved =
     (case map_of (pendingToolRequests state) actionId of
        None \<Rightarrow> (None, state)
      | Some request \<Rightarrow>
          (case sendToBackend state (UserApprovalMsg actionId approved) of
             (Some error, state1) \<Rightarrow> (Some error, state1)
           | (None, state1) \<Rightarrow>
               let state2 = ext_emit (state1\<lparr>pendingAction := None\<rparr>) BroadcastState in
               if \<not> approved
               then (let state3 = state2\<lparr>pendingToolRequests :=
                                    AList.delete actionId (pendingToolRequests state2)\<rparr>;
                         state4 = updateHud state3 ''Failed: PERMISSION_DENIED''
                     in sendToBackend state4 (ToolResultErr actionId ''PERMISSION_DENIED''))
               else executeToolRequest state2 request))"

section \<open>The backend: protocol, sessions and the tool call broker\<close>

datatype ToolName =
    browser_find
  | browser_highlight
  | browser_click
  | browser_type
  | browser_navigate
  | browser_select_candidate

definition TOOL_TIMEOUT_MS :: nat where "TOOL_TIMEOUT_MS = 5000"
definition TOOL_TIMEOUT_NAVIGATE_MS :: nat where "TOOL_TIMEOUT_NAVIGATE_MS = 30000"
definition TOOL_TIMEOUT_ACTION_MS :: nat where "TOOL_TIMEOUT_ACTION_MS = 60000"

definition toolTimeoutMs :: "ToolName \<Rightarrow> nat" where
  "toolTimeoutMs tool =
     (if tool = browser_navigate then TOOL_TIMEOUT_NAVIGATE_MS
      else if tool = browser_click \<or> tool = browser_type then TOOL_TIMEOUT_ACTION_MS
      else TOOL_TIMEOUT_MS)"

record Candidate =
  cand_id :: string
  cand_label :: string
  cand_selector :: string

text \<open>
  Messages from the backend to the extension. Each also carries the session's id and
  token, which are left out here.
\<close>

datatype BackendToExtension =
    AssistantDelta string
  | AssistantFinal string
  | StepEvent string
  | ToolRequest string ToolName json string nat

text \<open>
  What a handler does to the world outside the session object: a message written to the
  socket, the settlement of the promise of a tool round trip (promises are named by the
  handle of the timer created with them), and the abort request to the driver.
\<close>

datatype effect =
    Send BackendToExtension
  | Resolved nat "json option"
  | Rejected nat string
  | CopilotAbort

record RunContext =
  cancelled :: bool
  finalSent :: bool
  steps :: "string list"

record PendingToolCall =
  timer :: nat
  pending_tool :: ToolName

record WebSocket =
  ws_id :: nat
  ws_open :: bool

text \<open>
  \<open>pendingTools\<close> is a JavaScript \<open>Map\<close>: an association list in insertion order, where
  \<open>set\<close> on a present key keeps its place. \<open>timers\<close> is the runtime's table of armed timers:
  the handle, the action id its callback closes over, and the delay in milliseconds.
  \<open>nextTimer\<close> is the next fresh handle. \<open>log\<close> collects the effects in order. \<open>copilotSession\<close>
  says whether the driver session is there; \<open>queue\<close> holds the texts of the turns chained on
  the session's promise queue that have not started.
\<close>

record SessionState =
  sessionId :: string
  token :: string
  ws :: WebSocket
  copilotSession :: bool
  queue :: "json option list"
  run :: "RunContext option"
  pendingTools :: "(string \<times> PendingToolCall) list"
  lastFindCandidates :: "Candidate list"
  timers :: "(nat \<times> string \<times> nat) list"
  nextTimer :: nat
  log :: "effect list"

definition toErrorCode :: "json option \<Rightarrow> string" where
  "toErrorCode v =
     (case as_string v of
        None \<Rightarrow> ''EXTENSION_NOT_READY''
      | Some c \<Rightarrow>
          (if c = ''EXTENSION_NOT_READY'' \<or> c = ''NO_ACTIVE_TAB'' \<or> c = ''PERMISSION_DENIED'' \<or>
              c = ''NOT_FOUND'' \<or> c = ''TIMEOUT'' \<or> c = ''CANCELLED''
           then c else ''EXTENSION_NOT_READY''))"

definition send :: "SessionState \<Rightarrow> BackendToExtension \<Rightarrow> SessionState" where
  "send state message =
     (if \<not> ws_open (ws state) then state else state\<lparr>log := log state @ [Send message]\<rparr>)"

definition sendDelta :: "SessionState \<Rightarrow> string \<Rightarrow> SessionState" where
  "sendDelta state textDelta = send state (AssistantDelta textDelta)"

definition sendFinal :: "SessionState \<Rightarrow> string \<Rightarrow> SessionState" where
  "sendFinal state text = send state (AssistantFinal text)"

definition sendStep :: "SessionState \<Rightarrow> string \<Rightarrow> SessionState" where
  "sendStep state step = send state (StepEvent step)"

definition appendStep :: "SessionState \<Rightarrow> string \<Rightarrow> SessionState" where
  "appendStep state text =
     (case run state of
        None \<Rightarrow> state
      | Some r \<Rightarrow> sendStep (state\<lparr>run := Some (r\<lparr>steps := steps r @ [text]\<rparr>)\<rparr>) text)"

text \<open>A thrown \<open>Error\<close> is \<open>Inl\<close> of its message.\<close>

definition ensureSingleCandidateBeforeAction :: "SessionState \<Rightarrow> ToolName \<Rightarrow> string + unit" where
  "ensureSingleCandidateBeforeAction state tool =
     (if tool = browser_find then Inr ()
      else if length (lastFindCandidates state) = 0
        then Inl ''Call browser.find first and identify a candidate before taking actions.''
      else if length (lastFindCandidates state) > 1
        then Inl ''Multiple candidates are still unresolved. Ask the user to disambiguate by candidate id.''
      else Inr ())"

text \<open>\<open>clearTimeout\<close>: a cleared timer never fires.\<close>

definition clearTimeout :: "SessionState \<Rightarrow> nat \<Rightarrow> SessionState" where
  "clearTimeout state t = state\<lparr>timers := AList.delete t (timers state)\<rparr>"

text \<open>
  \<open>requestToolRoundTrip\<close> up to its \<open>return\<close>: the result is the handle of the promise the
  caller awaits.
\<close>

definition requestToolRoundTrip ::
  "SessionState \<Rightarrow> string \<Rightarrow> ToolName \<Rightarrow> json \<Rightarrow> string \<Rightarrow> string + (SessionState \<times> nat)" where
  "requestToolRoundTrip state actionId tool params uiLabel =
     (if \<not> ws_open (ws state) then Inl ''EXTENSION_NOT_READY''
      else
        let payload = ToolRequest actionId tool params uiLabel (toolTimeoutMs tool);
            h = nextTimer state;
            state1 = state\<lparr>nextTimer := Suc h,
                           timers := AList.update h (actionId, toolTimeoutMs tool) (timers state)\<rparr>;
            state2 = state1\<lparr>pendingTools :=
                       AList.update actionId \<lparr>timer = h, pending_tool = tool\<rparr> (pendingTools state1)\<rparr>
        in Inr (send state2 payload, h))"

text \<open>The callback of the timer with handle \<open>h\<close>, run by the runtime if the timer is still armed.\<close>

definition timerFired :: "SessionState \<Rightarrow> nat \<Rightarrow> SessionState" where
  "timerFired state h =
     (case map_of (timers state) h of
        None \<Rightarrow> state
      | Some (actionId, ms) \<Rightarrow>
          state\<lparr>timers := AList.delete h (timers state),
                pendingTools := AList.delete actionId (pendingTools state),
                log := log state @ [Rejected h ''TIMEOUT'']\<rparr>)"

text \<open>The loop of \<open>cancelRun\<close> and \<open>teardownSession\<close> over the pending calls.\<close>

fun rejectAll :: "SessionState \<Rightarrow> (string \<times> PendingToolCall) list \<Rightarrow> SessionState" where
  "rejectAll state [] = state"
| "rejectAll state ((k, pending) # rest) =
     rejectAll ((clearTimeout state (timer pending))
                  \<lparr>log := log state @ [Rejected (timer pending) ''CANCELLED'']\<rparr>) rest"

text \<open>
  \<open>cancelRun\<close> suspends at \<open>await state.copilotSession.abort()\<close>, so it is two pieces of code
  that run at different times, and any other handler of the session may run in between.

  \<open>cancelRun_resume\<close> is the continuation, the last statement of the function. It reads
  \<open>state.run.finalSent\<close> without a check: when the turn has ended in the meantime
  (\<open>state.run\<close> is \<open>null\<close>) that read throws a \<open>TypeError\<close>, whose text depends on the
  engine and is written \<open>TypeError\<close> here, and nothing is sent.
\<close>

definition cancelRun_resume :: "SessionState \<Rightarrow> string option \<times> SessionState" where
  "cancelRun_resume state =
     (case run state of
        None \<Rightarrow> (Some ''TypeError'', state)
      | Some r \<Rightarrow>
          if \<not> finalSent r
          then (let state1 = sendFinal state ''Cancelled by user.''
                in (None, state1\<lparr>run := map_option (\<lambda>r1. r1\<lparr>finalSent := True\<rparr>) (run state1)\<rparr>))
          else (None, state))"

text \<open>
  \<open>cancelRun_begin\<close> is the function up to that \<open>await\<close>. The request to the driver to abort
  is the effect \<open>CopilotAbort\<close>. A session without a driver session has no \<open>await\<close> on its
  path, and the function runs through to its end at once.
\<close>

definition cancelRun_begin :: "SessionState \<Rightarrow> SessionState" where
  "cancelRun_begin state =
     (case run state of
        None \<Rightarrow> state
      | Some r \<Rightarrow>
          let state1 = state\<lparr>run := Some (r\<lparr>cancelled := True\<rparr>)\<rparr>;
              state2 = rejectAll state1 (pendingTools state1);
              state3 = state2\<lparr>pendingTools := []\<rparr>
          in if copilotSession state3
             then state3\<lparr>log := log state3 @ [CopilotAbort]\<rparr>
             else snd (cancelRun_resume state3))"

text \<open>
  \<open>onToolResult\<close> on the session found in the registry, given the parsed message.
\<close>

definition settle :: "SessionState \<Rightarrow> json \<Rightarrow> SessionState" where
  "settle state message =
     (case as_string (jprop message ''actionId'') of
        None \<Rightarrow> state
      | Some actionId \<Rightarrow>
          (case map_of (pendingTools state) actionId of
             None \<Rightarrow> state
           | Some pending \<Rightarrow>
               let state1 = clearTimeout state (timer pending);
                   state2 = state1\<lparr>pendingTools := AList.delete actionId (pendingTools state1)\<rparr>
               in if truthy (jprop message ''ok'')
                  then state2\<lparr>log := log state2 @ [Resolved (timer pending) (jprop message ''data'')]\<rparr>
                  else state2\<lparr>log := log state2 @
                         [Rejected (timer pending) (toErrorCode (jprop message ''error''))]\<rparr>))"

definition onToolResult :: "(string \<rightharpoonup> SessionState) \<Rightarrow> json \<Rightarrow> (string \<rightharpoonup> SessionState)" where
  "onToolResult sessions message =
     (case as_string (jprop message ''sessionId'') of
        None \<Rightarrow> sessions
      | Some sid \<Rightarrow>
          (case sessions sid of
             None \<Rightarrow> sessions
           | Some state \<Rightarrow> sessions(sid \<mapsto> settle state message)))"

subsection \<open>Tool handlers\<close>

definition candidateFromUnknown :: "json \<Rightarrow> Candidate option" where
  "candidateFromUnknown v =
     (if \<not> is_object (Some v) then None
      else (case (as_string (jprop v ''id''), as_string (jprop v ''label''),
                  as_string (jprop v ''selector'')) of
              (Some i, Some l, Some sel) \<Rightarrow>
                Some \<lparr>cand_id = i, cand_label = l, cand_selector = sel\<rparr>
            | _ \<Rightarrow> None))"

definition parseFindResult :: "json option \<Rightarrow> Candidate list" where
  "parseFindResult data =
     (if \<not> is_object data then []
      else (case data of
              Some d \<Rightarrow>
                (case jprop d ''candidates'' of
                   Some (JArr xs) \<Rightarrow> List.map_filter candidateFromUnknown xs
                 | _ \<Rightarrow> [])
            | None \<Rightarrow> []))"

definition getStringArg :: "json \<Rightarrow> string \<Rightarrow> string" where
  "getStringArg args key = (case as_string (jprop args key) of None \<Rightarrow> [] | Some v \<Rightarrow> v)"

definition candidate_json :: "Candidate \<Rightarrow> json" where
  "candidate_json c =
     JObj [(''id'', JStr (cand_id c)), (''label'', JStr (cand_label c)),
           (''selector'', JStr (cand_selector c))]"

definition ok_true :: json where
  "ok_true = JObj [(''ok'', JBool True)]"

text \<open>
  A handler runs up to its \<open>await\<close> of the round trip. It has thrown, or it waits for the
  promise with the given handle, or it has returned a value to the driver. When the promise
  is rejected the handler throws the same error and changes nothing; when it is resolved
  the \<open>resume\<close> function below runs.
\<close>

datatype handler_outcome =
    Threw string
  | Awaiting nat
  | Returned json

definition awaitRoundTrip ::
  "SessionState \<Rightarrow> string + (SessionState \<times> nat) \<Rightarrow> handler_outcome \<times> SessionState" where
  "awaitRoundTrip state r =
     (case r of Inl e \<Rightarrow> (Threw e, state) | Inr (state', h) \<Rightarrow> (Awaiting h, state'))"

definition browser_navigate_begin ::
  "SessionState \<Rightarrow> json \<Rightarrow> string \<Rightarrow> handler_outcome \<times> SessionState" where
  "browser_navigate_begin state args toolCallId =
     (let url = trim (getStringArg args ''url'') in
      if url = [] then (Threw ''NOT_FOUND'', state)
      else
        let state1 = appendStep state (''Navigating to '' @ url)
        in awaitRoundTrip state1
             (requestToolRoundTrip state1 toolCallId browser_navigate
                (JObj [(''url'', JStr url)]) (''navigating to '' @ url)))"

definition browser_navigate_resume ::
  "SessionState \<Rightarrow> string \<Rightarrow> json option \<Rightarrow> json \<times> SessionState" where
  "browser_navigate_resume state url rawResult =
     (let result = (case rawResult of
                      Some r \<Rightarrow> if is_object rawResult then r
                                else JObj [(''ok'', JBool True), (''url'', JStr url)]
                    | None \<Rightarrow> JObj [(''ok'', JBool True), (''url'', JStr url)])
      in (result, state\<lparr>lastFindCandidates := []\<rparr>))"

definition browser_find_begin ::
  "SessionState \<Rightarrow> json \<Rightarrow> string \<Rightarrow> handler_outcome \<times> SessionState" where
  "browser_find_begin state args toolCallId =
     (let query = trim (getStringArg args ''query'') in
      if query = [] then (Returned (JObj [(''candidates'', JArr [])]), state)
      else
        let state1 = appendStep state (''Finding elements for \"'' @ query @ ''\"'')
        in awaitRoundTrip state1
             (requestToolRoundTrip state1 toolCallId browser_find
                (JObj [(''query'', JStr query)]) (''finding '' @ query)))"

definition browser_find_resume :: "SessionState \<Rightarrow> json option \<Rightarrow> json \<times> SessionState" where
  "browser_find_resume state rawResult =
     (let parsed = parseFindResult rawResult;
          state1 = state\<lparr>lastFindCandidates := parsed\<rparr>;
          state2 = appendStep state1 (''Found '' @ string_of_nat (length parsed) @ '' candidate(s)'')
      in (JObj [(''candidates'', JArr (map candidate_json parsed))], state2))"

definition browser_select_candidate_handler ::
  "SessionState \<Rightarrow> json \<Rightarrow> handler_outcome \<times> SessionState" where
  "browser_select_candidate_handler state args =
     (let i = trim (getStringArg args ''id'') in
      case find (\<lambda>c. cand_id c = i) (lastFindCandidates state) of
        None \<Rightarrow> (Threw ''NOT_FOUND'', state)
      | Some candidate \<Rightarrow>
          let state1 = state\<lparr>lastFindCandidates := [candidate]\<rparr>;
              state2 = appendStep state1
                         (''Selected candidate '' @ i @ '': '' @ cand_label candidate)
          in (Returned (JObj [(''selected'', candidate_json candidate)]), state2))"

definition browser_highlight_begin ::
  "SessionState \<Rightarrow> json \<Rightarrow> string \<Rightarrow> handler_outcome \<times> SessionState" where
  "browser_highlight_begin state args toolCallId =
     (case ensureSingleCandidateBeforeAction state browser_highlight of
        Inl e \<Rightarrow> (Threw e, state)
      | Inr u \<Rightarrow>
          let selector = trim (getStringArg args ''selector'');
              label = trim (getStringArg args ''label'')
          in if selector = [] then (Threw ''NOT_FOUND'', state)
             else
               let state1 = appendStep state (''Highlighting '' @ selector)
               in awaitRoundTrip state1
                    (requestToolRoundTrip state1 toolCallId browser_highlight
                       (JObj [(''selector'', JStr selector), (''label'', JStr label)])
                       (''highlighting '' @ (if label = [] then selector else label))))"

definition browser_click_begin ::
  "SessionState \<Rightarrow> json \<Rightarrow> string \<Rightarrow> handler_outcome \<times> SessionState" where
  "browser_click_begin state args toolCallId =
     (case ensureSingleCandidateBeforeAction state browser_click of
        Inl e \<Rightarrow> (Threw e, state)
      | Inr u \<Rightarrow>
          let selector = trim (getStringArg args ''selector'')
          in if selector = [] then (Threw ''NOT_FOUND'', state)
             else
               let state1 = appendStep state (''Clicking '' @ selector)
               in awaitRoundTrip state1
                    (requestToolRoundTrip state1 toolCallId browser_click
                       (JObj [(''selector'', JStr selector)]) (''clicking '' @ selector)))"

definition browser_type_begin ::
  "SessionState \<Rightarrow> json \<Rightarrow> string \<Rightarrow> handler_outcome \<times> SessionState" where
  "browser_type_begin state args toolCallId =
     (case ensureSingleCandidateBeforeAction state browser_type of
        Inl e \<Rightarrow> (Threw e, state)
      | Inr u \<Rightarrow>
          let selector = trim (getStringArg args ''selector'');
              text = getStringArg args ''text''
          in if selector = [] then (Threw ''NOT_FOUND'', state)
             else
               let state1 = appendStep state (''Typing into '' @ selector)
               in awaitRoundTrip state1
                    (requestToolRoundTrip state1 toolCallId browser_type
                       (JObj [(''selector'', JStr selector), (''text'', JStr text)])
                       (''typing into '' @ selector)))"

text \<open>The handler the driver reaches under a tool name, up to its first \<open>await\<close>.\<close>

definition tool_begin ::
  "SessionState \<Rightarrow> ToolName \<Rightarrow> json \<Rightarrow> string \<Rightarrow> handler_outcome \<times> SessionState" where
  "tool_begin state tool args toolCallId =
     (case tool of
        browser_navigate \<Rightarrow> browser_navigate_begin state args toolCallId
      | browser_find \<Rightarrow> browser_find_begin state args toolCallId
      | browser_select_candidate \<Rightarrow> browser_select_candidate_handler state args
      | browser_highlight \<Rightarrow> browser_highlight_begin state args toolCallId
      | browser_click \<Rightarrow> browser_click_begin state args toolCallId
      | browser_type \<Rightarrow> browser_type_begin state args toolCallId)"

subsection \<open>The run controller\<close>

text \<open>
  \<open>extractDomainHint(text)\<close> calls \<open>text.match\<close>. \<open>text\<close> is the \<open>text\<close> property of the
  envelope, which \<open>normalizeMessage\<close> does not look at: when it is not a string the call
  throws a \<open>TypeError\<close>, whose text depends on the engine and is written \<open>TypeError\<close> here.
  On a string it only computes a part of the prompt.
\<close>

definition extractDomainHint_throws :: "json option \<Rightarrow> string option" where
  "extractDomainHint_throws text =
     (case as_string text of None \<Rightarrow> Some ''TypeError'' | Some t \<Rightarrow> None)"

text \<open>
  \<open>handleUserMessage\<close> up to the \<open>await\<close> of the driver, that is up to the \<open>try\<close> block. The
  error thrown when there is no driver session leaves the function before a run exists.
  The call of \<open>extractDomainHint\<close> comes after the run is installed, the candidates are
  reset, the first step is sent and the keep-alive interval is started, and before the
  \<open>try\<close>: what it throws leaves the function with the run still installed, past the
  \<open>catch\<close> and the \<open>finally\<close> block.
\<close>

definition handleUserMessage_begin ::
  "SessionState \<Rightarrow> json option \<Rightarrow> string option \<times> SessionState" where
  "handleUserMessage_begin state text =
     (if \<not> copilotSession state then (Some ''Session not ready'', state)
      else
        let state1 = state\<lparr>run := Some \<lparr>cancelled = False, finalSent = False, steps = []\<rparr>\<rparr>;
            state2 = state1\<lparr>lastFindCandidates := []\<rparr>;
            state3 = appendStep state2 ''Started run''
        in (extractDomainHint_throws text, state3))"

text \<open>
  The rest of the \<open>try\<close> block once the driver has answered, with the \<open>finally\<close> block.
  \<open>content\<close> is \<open>finalEvent?.data?.content\<close>.
\<close>

definition handleUserMessage_done :: "SessionState \<Rightarrow> string option \<Rightarrow> SessionState" where
  "handleUserMessage_done state content =
     (let state1 =
        (case run state of
           None \<Rightarrow> state
         | Some r \<Rightarrow>
             if cancelled r \<or> finalSent r then state
             else
               let finalText = (case content of
                                  None \<Rightarrow> ''Done.''
                                | Some c \<Rightarrow> if trim c = [] then ''Done.'' else trim c);
                   state' = sendFinal state finalText
               in state'\<lparr>run := map_option (\<lambda>r'. r'\<lparr>finalSent := True\<rparr>) (run state')\<rparr>)
      in state1\<lparr>run := None\<rparr>)"

text \<open>
  The \<open>catch\<close> block when the driver has failed, with the \<open>finally\<close> block. \<open>message\<close> is the
  text the block builds from the error.
\<close>

definition handleUserMessage_failed :: "SessionState \<Rightarrow> string \<Rightarrow> SessionState" where
  "handleUserMessage_failed state message =
     (let state1 =
        (case run state of
           None \<Rightarrow> sendFinal state (''Failed: '' @ message)
         | Some r \<Rightarrow>
             if cancelled r then state
             else
               let state' = sendFinal state (''Failed: '' @ message)
               in state'\<lparr>run := map_option (\<lambda>r'. r'\<lparr>finalSent := True\<rparr>) (run state')\<rparr>)
      in state1\<lparr>run := None\<rparr>)"

text \<open>The keep-alive interval and the three subscriptions of \<open>wireSessionEvents\<close>.\<close>

definition keepAlive :: "SessionState \<Rightarrow> SessionState" where
  "keepAlive state =
     (case run state of
        None \<Rightarrow> state
      | Some r \<Rightarrow> if cancelled r then state else sendDelta state ''...'')"

definition on_message_delta :: "SessionState \<Rightarrow> string \<Rightarrow> SessionState" where
  "on_message_delta state delta =
     (case run state of
        None \<Rightarrow> state
      | Some r \<Rightarrow> if cancelled r then state
                  else if delta \<noteq> [] then sendDelta state delta else state)"

definition on_tool_execution_start :: "SessionState \<Rightarrow> string \<Rightarrow> SessionState" where
  "on_tool_execution_start state toolName =
     (case run state of
        None \<Rightarrow> state
      | Some r \<Rightarrow> if cancelled r then state
                  else appendStep state (''Tool start: '' @ toolName))"

definition on_tool_execution_complete ::
  "SessionState \<Rightarrow> string \<Rightarrow> bool \<Rightarrow> string option \<Rightarrow> SessionState" where
  "on_tool_execution_complete state toolCallId success error =
     (case run state of
        None \<Rightarrow> state
      | Some r \<Rightarrow>
          if cancelled r then state
          else
            let status = (if success then ''ok''
                          else ''failed ('' @ (case error of None \<Rightarrow> ''error'' | Some m \<Rightarrow> m) @ '')'')
            in appendStep state (''Tool complete: '' @ toolCallId @ '' '' @ status))"

text \<open>The \<open>user_approval\<close> case of the router, on the session found.\<close>

definition on_user_approval :: "SessionState \<Rightarrow> json \<Rightarrow> SessionState" where
  "on_user_approval state message =
     (case run state of
        None \<Rightarrow> state
      | Some r \<Rightarrow>
          if cancelled r then state
          else
            let decision = (if truthy (jprop message ''approved'') then ''approved'' else ''rejected'');
                actionId = (case as_string (jprop message ''actionId'') of None \<Rightarrow> ''undefined'' | Some a \<Rightarrow> a)
            in appendStep state (''User '' @ decision @ '' action '' @ actionId))"

subsection \<open>Events of one session\<close>

text \<open>
  Everything that can run on a session between two suspensions, as one event each: the
  driver calling a tool handler, the continuation of a navigate or find handler, an
  inbound message, the continuation of \<open>cancelRun\<close> after the driver's \<open>abort\<close>, a timer, the
  driver's notifications, and the begin, the retry on the default model and the two ends
  of a turn. A turn begins with
  the \<open>text\<close> property of its \<open>user_message\<close>; what \<open>handleUserMessage\<close> throws before its
  \<open>try\<close> block reaches the \<open>catch\<close> of the queue in \<open>routeMessage\<close>, which sends a final
  answer. What the continuation of \<open>cancelRun\<close> throws is caught and logged by the listener.
\<close>

datatype event =
    ToolCall ToolName json string
  | NavigateResumed string "json option"
  | FindResumed "json option"
  | ToolResultReceived json
  | TimerFired nat
  | CancelReceived
  | CancelResumed
  | ApprovalReceived json
  | KeepAliveTick
  | MessageDelta string
  | ToolExecutionStart string
  | ToolExecutionComplete string bool "string option"
  | TurnBegin "json option"
  | ModelRetry string
  | TurnDone "string option"
  | TurnFailed string

fun step :: "SessionState \<Rightarrow> event \<Rightarrow> SessionState" where
  "step state (ToolCall tool args toolCallId) = snd (tool_begin state tool args toolCallId)"
| "step state (NavigateResumed url rawResult) = snd (browser_navigate_resume state url rawResult)"
| "step state (FindResumed rawResult) = snd (browser_find_resume state rawResult)"
| "step state (ToolResultReceived message) = settle state message"
| "step state (TimerFired h) = timerFired state h"
| "step state CancelReceived = cancelRun_begin state"
| "step state CancelResumed = snd (cancelRun_resume state)"
| "step state (ApprovalReceived message) = on_user_approval state message"
| "step state KeepAliveTick = keepAlive state"
| "step state (MessageDelta delta) = on_message_delta state delta"
| "step state (ToolExecutionStart toolName) = on_tool_execution_start state toolName"
| "step state (ToolExecutionComplete toolCallId success error) =
     on_tool_execution_complete state toolCallId success error"
| "step state (TurnBegin text) =
     (case handleUserMessage_begin state text of
        (None, state') \<Rightarrow> state'
      | (Some e, state') \<Rightarrow> sendFinal state' (''Failed: '' @ e))"
| "step state (ModelRetry model) =
     appendStep state
       (''Model '' @ model @ '' failed with 400; retrying with Copilot default model'')"
| "step state (TurnDone content) = handleUserMessage_done state content"
| "step state (TurnFailed message) = handleUserMessage_failed state message"

definition steps_from :: "SessionState \<Rightarrow> event list \<Rightarrow> SessionState" where
  "steps_from state es = foldl step state es"

text \<open>
  How the promise with handle \<open>h\<close> has ended according to the log: the value it was resolved
  with, the error it was rejected with, or \<open>None\<close> while it is pending.
\<close>

fun settlement_of :: "nat \<Rightarrow> effect list \<Rightarrow> (string + json option) option" where
  "settlement_of h [] = None"
| "settlement_of h (Resolved h' v # rest) =
     (if h' = h then Some (Inr v) else settlement_of h rest)"
| "settlement_of h (Rejected h' code # rest) =
     (if h' = h then Some (Inl code) else settlement_of h rest)"
| "settlement_of h (e # rest) = settlement_of h rest"

text \<open>
  One whole call of the \<open>browser_navigate\<close> handler by the driver: the code up to the \<open>await\<close>
  of the round trip, the events \<open>during\<close> that run on the session while the handler is
  suspended, and the code after the \<open>await\<close>, which runs once the promise of the round trip
  is settled. A rejected promise makes the \<open>await\<close> throw and the handler returns nothing; a
  resolved one hands its value to the last three statements of the handler. While the
  promise is pending the handler is still suspended.
\<close>

definition browser_navigate_call ::
  "SessionState \<Rightarrow> json \<Rightarrow> string \<Rightarrow> event list \<Rightarrow> handler_outcome \<times> SessionState" where
  "browser_navigate_call state args toolCallId during =
     (case browser_navigate_begin state args toolCallId of
        (Awaiting h, state1) \<Rightarrow>
          (let state2 = steps_from state1 during
           in case settlement_of h (log state2) of
                None \<Rightarrow> (Awaiting h, state2)
              | Some (Inl e) \<Rightarrow> (Threw e, state2)
              | Some (Inr rawResult) \<Rightarrow>
                  (let (result, state3) =
                         browser_navigate_resume state2 (trim (getStringArg args ''url'')) rawResult
                   in (Returned result, state3)))
      | (outcome, state1) \<Rightarrow> (outcome, state1))"


fun is_final :: "effect \<Rightarrow> bool" where
  "is_final (Send (AssistantFinal text)) = True"
| "is_final e = False"

definition finals :: "SessionState \<Rightarrow> nat" where
  "finals state = length (filter is_final (log state))"

subsection \<open>The protocol router\<close>

record backend =
  sessions :: "string \<rightharpoonup> SessionState"
  pairingToken :: string
  createSession_ok :: bool
  closes :: "(nat \<times> nat \<times> string) list"

text \<open>
  \<open>normalizeMessage\<close> on the result of \<open>JSON.parse\<close>, which is \<open>None\<close> when the parser threw.
\<close>

definition normalizeMessage :: "json option \<Rightarrow> json option" where
  "normalizeMessage parsed =
     (case parsed of
        None \<Rightarrow> None
      | Some v \<Rightarrow>
          if \<not> is_object parsed then None
          else if as_string (jprop v ''sessionId'') = None then None
          else if as_string (jprop v ''token'') = None then None
          else if as_string (jprop v ''type'') = None then None
          else Some v)"

definition createSessionState :: "string \<Rightarrow> string \<Rightarrow> WebSocket \<Rightarrow> SessionState" where
  "createSessionState sid tok socket =
     \<lparr>sessionId = sid, token = tok, ws = socket, copilotSession = True, queue = [], run = None,
      pendingTools = [], lastFindCandidates = [], timers = [], nextTimer = 0, log = []\<rparr>"

text \<open>
  \<open>getSessionState\<close>; creating the driver session is the environment's part, and when it
  fails the function throws and no session is registered.
\<close>

definition getSessionState ::
  "backend \<Rightarrow> string \<Rightarrow> string \<Rightarrow> WebSocket \<Rightarrow> SessionState option" where
  "getSessionState b sid tok socket =
     (case sessions b sid of
        Some existing \<Rightarrow> Some (existing\<lparr>ws := socket, token := tok\<rparr>)
      | None \<Rightarrow> if createSession_ok b then Some (createSessionState sid tok socket) else None)"

text \<open>
  What became of an inbound envelope: dropped by the \<open>message\<close> listener, refused for its
  token, handed to the case of the router named, or an error thrown by the router and
  logged by the listener.
\<close>

datatype route_outcome =
    Dropped
  | InvalidToken
  | Handled string
  | RouteThrew string

definition str_of :: "json option \<Rightarrow> string" where
  "str_of v = (case as_string v of None \<Rightarrow> [] | Some x \<Rightarrow> x)"

text \<open>
  \<open>routeMessage\<close> up to its first suspension. A \<open>user_message\<close> is put on the queue of its
  session with its \<open>text\<close> property as it came; a \<open>cancel\<close> runs \<open>cancelRun\<close> up to its \<open>await\<close>.
\<close>

definition routeMessage :: "backend \<Rightarrow> WebSocket \<Rightarrow> json \<Rightarrow> route_outcome \<times> backend" where
  "routeMessage b socket message =
     (let sid = str_of (jprop message ''sessionId'');
          tok = str_of (jprop message ''token'');
          ty = str_of (jprop message ''type'')
      in if tok \<noteq> pairingToken b
         then (InvalidToken, b\<lparr>closes := closes b @ [(ws_id socket, 4001, ''invalid token'')]\<rparr>)
         else if ty = ''user_message'' then
           (case getSessionState b sid tok socket of
              None \<Rightarrow> (RouteThrew ''createSession'', b)
            | Some state \<Rightarrow>
                (Handled ty,
                 b\<lparr>sessions := (sessions b)(sid \<mapsto> state\<lparr>queue := queue state @ [jprop message ''text'']\<rparr>)\<rparr>))
         else if ty = ''user_approval'' then
           (case sessions b sid of
              None \<Rightarrow> (Handled ty, b)
            | Some state \<Rightarrow>
                (Handled ty, b\<lparr>sessions := (sessions b)(sid \<mapsto> on_user_approval state message)\<rparr>))
         else if ty = ''cancel'' then
           (case sessions b sid of
              None \<Rightarrow> (Handled ty, b)
            | Some state \<Rightarrow> (Handled ty, b\<lparr>sessions := (sessions b)(sid \<mapsto> cancelRun_begin state)\<rparr>))
         else if ty = ''tool_result'' then
           (Handled ty, b\<lparr>sessions := onToolResult (sessions b) message\<rparr>)
         else (RouteThrew ''Unhandled message'', b))"

text \<open>The listener \<open>ws.on("message")\<close>.\<close>

definition on_message :: "backend \<Rightarrow> WebSocket \<Rightarrow> json option \<Rightarrow> route_outcome \<times> backend" where
  "on_message b socket parsed =
     (case normalizeMessage parsed of
        None \<Rightarrow> (Dropped, b)
      | Some message \<Rightarrow> routeMessage b socket message)"

subsection \<open>At most one settlement per promise\<close>

text \<open>The handles of the promises settled so far, in order.\<close>

fun settled :: "effect list \<Rightarrow> nat list" where
  "settled [] = []"
| "settled (Resolved h d # es) = h # settled es"
| "settled (Rejected h c # es) = h # settled es"
| "settled (e # es) = settled es"

text \<open>
  A pending call is armed: its timer is in the table of armed timers, and the callback of
  that timer closes over the call's own action id.
\<close>

definition armed_for :: "SessionState \<Rightarrow> string \<times> PendingToolCall \<Rightarrow> bool" where
  "armed_for state kp =
     (case map_of (timers state) (timer (snd kp)) of
        None \<Rightarrow> False
      | Some (actionId, ms) \<Rightarrow> actionId = fst kp)"

text \<open>
  The invariant of the broker: the keys of both tables are unique, every pending call is
  armed, every armed timer has a handle already handed out and a promise not yet settled,
  and no promise has been settled twice.
\<close>

definition broker_inv :: "SessionState \<Rightarrow> bool" where
  "broker_inv state \<longleftrightarrow>
     distinct (map fst (pendingTools state)) \<and>
     distinct (map fst (timers state)) \<and>
     list_all (armed_for state) (pendingTools state) \<and>
     list_all (\<lambda>h. h < nextTimer state \<and> h \<notin> set (settled (log state))) (map fst (timers state)) \<and>
     list_all (\<lambda>h. h < nextTimer state) (settled (log state)) \<and>
     distinct (settled (log state))"

text \<open>The codes of the type \<open>ToolResultError\<close> of the protocol.\<close>

definition ToolResultError :: "string list" where
  "ToolResultError =
     [''EXTENSION_NOT_READY'', ''NO_ACTIVE_TAB'', ''PERMISSION_DENIED'', ''NOT_FOUND'',
      ''TIMEOUT'', ''CANCELLED'']"

subsection \<open>Target-bearing tools\<close>

definition target_tools :: "ToolName set" where
  "target_tools = {browser_highlight, browser_click, browser_type}"

text \<open>The two messages of \<open>ensureSingleCandidateBeforeAction\<close>.\<close>

definition FIND_FIRST :: string where
  "FIND_FIRST = ''Call browser.find first and identify a candidate before taking actions.''"

definition MUST_DISAMBIGUATE :: string where
  "MUST_DISAMBIGUATE =
     ''Multiple candidates are still unresolved. Ask the user to disambiguate by candidate id.''"

text \<open>
  The events that put candidates into an empty list: the continuation of a \<open>browser_find\<close>
  handler whose result holds a candidate. The events that call \<open>browser_find\<close>.
\<close>

fun repopulates :: "event \<Rightarrow> bool" where
  "repopulates (FindResumed rawResult) = (parseFindResult rawResult \<noteq> [])"
| "repopulates e = False"

fun find_called :: "event \<Rightarrow> bool" where
  "find_called (ToolCall tool args toolCallId) = (tool = browser_find)"
| "find_called e = False"

text \<open>The two flags of the active run, if there is one.\<close>

definition run_flags :: "SessionState \<Rightarrow> (bool \<times> bool) option" where
  "run_flags state = map_option (\<lambda>r. (cancelled r, finalSent r)) (run state)"





subsection \<open>What reaches the page and the backend\<close>

text \<open>
  An effect that executes a tool against the page: a command to the content script other
  than a HUD update, or a navigation of the tab.
\<close>

fun tool_dispatch :: "ext_effect \<Rightarrow> bool" where
  "tool_dispatch (TabsSendMessage (Hud message)) = False"
| "tool_dispatch (TabsSendMessage c) = True"
| "tool_dispatch (NavigateActiveTab url) = True"
| "tool_dispatch e = False"

fun to_backend :: "ext_effect \<Rightarrow> bool" where
  "to_backend (ToBackend m) = True"
| "to_backend e = False"

section \<open>The content script: the page, element resolution, selector synthesis\<close>

text \<open>
  What the script reads of an element: its tag name in lower case, its attributes, the two
  text properties, whether it is an \<open>HTMLElement\<close>, its value when it is an
  \<open>HTMLInputElement\<close>, and \<open>rendered\<close>, the outcome of the computed-style and layout-box test of
  \<open>isVisible\<close>. The document is the tree of its elements. An element of the document is named
  by its path, the child indices from the root.
\<close>

record node_info =
  tagName :: string
  attributes :: "(string \<times> string) list"
  innerText :: string
  textContent :: string
  isHTMLElement :: bool
  inputValue :: "string option"
  rendered :: bool

datatype element = Element node_info "element list"

fun info :: "element \<Rightarrow> node_info" where
  "info (Element i cs) = i"

fun children :: "element \<Rightarrow> element list" where
  "children (Element i cs) = cs"

fun node_at :: "element \<Rightarrow> nat list \<Rightarrow> element option" where
  "node_at e [] = Some e"
| "node_at e (i # p) = (if i < length (children e) then node_at (children e ! i) p else None)"

text \<open>All elements in document order.\<close>

fun all_paths :: "element \<Rightarrow> nat list list"
  and all_paths_from :: "nat \<Rightarrow> element list \<Rightarrow> nat list list" where
  "all_paths (Element i cs) = [] # all_paths_from 0 cs"
| "all_paths_from n [] = []"
| "all_paths_from n (c # cs) = map ((#) n) (all_paths c) @ all_paths_from (Suc n) cs"

definition getAttribute :: "node_info \<Rightarrow> string \<Rightarrow> string option" where
  "getAttribute i name = map_of (attributes i) name"

definition isVisible :: "node_info \<Rightarrow> bool" where
  "isVisible i = (if \<not> isHTMLElement i then False else rendered i)"

text \<open>\<open>text.replace(/\s+/g, " ")\<close>.\<close>

fun collapseFrom :: "bool \<Rightarrow> string \<Rightarrow> string" where
  "collapseFrom inRun [] = []"
| "collapseFrom inRun (c # s) =
     (if isSpace c then (if inRun then collapseFrom True s else CHR '' '' # collapseFrom True s)
      else c # collapseFrom False s)"

definition collapseSpaces :: "string \<Rightarrow> string" where
  "collapseSpaces s = collapseFrom False s"

text \<open>An attribute value or property that is present and not empty.\<close>

definition nonEmpty :: "string option \<Rightarrow> bool" where
  "nonEmpty v = (case v of None \<Rightarrow> False | Some s \<Rightarrow> s \<noteq> [])"

definition getElementLabel :: "node_info \<Rightarrow> string" where
  "getElementLabel i =
     (let aria = getAttribute i ''aria-label'' in
      if nonEmpty aria \<and> trim (StringOr aria) \<noteq> [] then trim (StringOr aria)
      else
        let text = trim (if innerText i \<noteq> [] then innerText i else textContent i) in
        if text \<noteq> [] then take 120 (collapseSpaces text)
        else
          let v = inputValue i in
          if nonEmpty v \<and> trim (StringOr v) \<noteq> [] then trim (StringOr v)
          else
            let placeholder = getAttribute i ''placeholder'' in
            if nonEmpty placeholder \<and> trim (StringOr placeholder) \<noteq> []
            then trim (StringOr placeholder)
            else
              let name = getAttribute i ''name'' in
              if nonEmpty name \<and> trim (StringOr name) \<noteq> [] then trim (StringOr name)
              else tagName i)"

definition normalizeText :: "string option \<Rightarrow> string" where
  "normalizeText v = trim (toLowerCase (StringOr v))"

text \<open>\<open>query.split(/\s+/).filter(Boolean)\<close>: the maximal runs without white space.\<close>

fun tokens_from :: "string \<Rightarrow> string \<Rightarrow> string list" where
  "tokens_from cur [] = (if cur = [] then [] else [cur])"
| "tokens_from cur (c # s) =
     (if isSpace c then (if cur = [] then tokens_from [] s else cur # tokens_from [] s)
      else tokens_from (cur @ [c]) s)"

definition token_score :: "string \<Rightarrow> string \<Rightarrow> string \<Rightarrow> string \<Rightarrow> string \<Rightarrow> string \<Rightarrow> nat" where
  "token_score label name placeholder role href tok =
     (if str_includes label tok then 15 else 0) +
     (if str_includes name tok \<or> str_includes placeholder tok then 10 else 0) +
     (if str_includes role tok then 5 else 0) +
     (if str_includes href tok then 5 else 0)"

definition rankCandidate :: "node_info \<Rightarrow> string \<Rightarrow> nat" where
  "rankCandidate i queryText =
     (let label = normalizeText (Some (getElementLabel i));
          role = normalizeText (getAttribute i ''role'');
          name = normalizeText (getAttribute i ''name'');
          placeholder = normalizeText (getAttribute i ''placeholder'');
          href = normalizeText (getAttribute i ''href'');
          query = normalizeText (Some queryText)
      in if query = [] then 0
         else
           (if str_includes label query then 80 else 0) +
           (if str_includes name query \<or> str_includes placeholder query then 50 else 0) +
           (if str_includes role query then 20 else 0) +
           (if str_includes href query then 20 else 0) +
           sum_list (map (token_score label name placeholder role href) (tokens_from [] query)) +
           (if isVisible i then 10 else 0))"

subsection \<open>Selectors\<close>

text \<open>
  A selector is kept in parsed form: the text the script builds with \<open>cssEscape\<close> and
  \<open>attrEscape\<close> is taken to parse back to it. The forms are \<open>#id\<close>, \<open>tag[attr="value"]\<close>, a chain
  \<open>tag:nth-of-type(k) > ... > tag:nth-of-type(k)\<close>, and a bare tag.
\<close>

datatype selector =
    ById string
  | TagAttr string string string
  | NthPath "(string \<times> nat) list"
  | TagOnly string

text \<open>
  The position of an element among the siblings of its tag, counted from one; the root has
  no siblings.
\<close>

definition nth_of_type :: "element \<Rightarrow> nat list \<Rightarrow> nat" where
  "nth_of_type doc p =
     (if p = [] then 1
      else (case node_at doc (butlast p) of
              None \<Rightarrow> 0
            | Some parent \<Rightarrow>
                let siblings = children parent; n = last p in
                if n < length siblings
                then Suc (length (filter (\<lambda>c. tagName (info c) = tagName (info (siblings ! n)))
                                    (take n siblings)))
                else 0))"

text \<open>A chain of child combinators, last compound first.\<close>

fun matches_path :: "element \<Rightarrow> nat list \<Rightarrow> (string \<times> nat) list \<Rightarrow> bool" where
  "matches_path doc p [] = True"
| "matches_path doc p ((t, k) # rest) =
     (case node_at doc p of
        None \<Rightarrow> False
      | Some e \<Rightarrow>
          tagName (info e) = t \<and> nth_of_type doc p = k \<and>
          (rest = [] \<or> (p \<noteq> [] \<and> matches_path doc (butlast p) rest)))"

definition matches :: "element \<Rightarrow> nat list \<Rightarrow> selector \<Rightarrow> bool" where
  "matches doc p sel =
     (case node_at doc p of
        None \<Rightarrow> False
      | Some e \<Rightarrow>
          (case sel of
             ById v \<Rightarrow> getAttribute (info e) ''id'' = Some v
           | TagAttr t a v \<Rightarrow> tagName (info e) = t \<and> getAttribute (info e) a = Some v
           | NthPath segments \<Rightarrow> matches_path doc p (rev segments)
           | TagOnly t \<Rightarrow> tagName (info e) = t))"

definition querySelectorAll :: "element \<Rightarrow> selector \<Rightarrow> nat list list" where
  "querySelectorAll doc sel = filter (\<lambda>p. matches doc p sel) (all_paths doc)"

definition isUniqueSelector :: "element \<Rightarrow> selector \<Rightarrow> bool" where
  "isUniqueSelector doc sel = (length (querySelectorAll doc sel) = 1)"

text \<open>\<open>segments.join(" > ") || tag\<close>.\<close>

definition joined_or_tag :: "(string \<times> nat) list \<Rightarrow> string \<Rightarrow> selector" where
  "joined_or_tag segments tag = (if segments = [] then TagOnly tag else NthPath segments)"

text \<open>
  The loop of \<open>buildSelector\<close>. \<open>up\<close> is the path of \<open>current\<close> read from the element towards the
  root; when it is empty \<open>current\<close> is the root, which has no parent element.
\<close>

fun ancestorWalk :: "element \<Rightarrow> string \<Rightarrow> nat list \<Rightarrow> (string \<times> nat) list \<Rightarrow> selector" where
  "ancestorWalk doc tag [] segments = joined_or_tag segments tag"
| "ancestorWalk doc tag (n # up) segments =
     (if \<not> length segments < 5 then joined_or_tag segments tag
      else
        let current = rev (n # up);
            currentTag = (case node_at doc current of None \<Rightarrow> [] | Some e \<Rightarrow> tagName (info e));
            segments' = (currentTag, nth_of_type doc current) # segments;
            sel = NthPath segments'
        in if isUniqueSelector doc sel then sel else ancestorWalk doc tag up segments')"

text \<open>One step of the chain of attribute selectors: taken when the value is there and the
  selector is unique.\<close>

definition accepted :: "element \<Rightarrow> string option \<Rightarrow> selector \<Rightarrow> bool" where
  "accepted doc v sel = (nonEmpty v \<and> isUniqueSelector doc sel)"

definition buildSelector :: "element \<Rightarrow> nat list \<Rightarrow> selector" where
  "buildSelector doc p =
     (case node_at doc p of
        None \<Rightarrow> TagOnly []
      | Some e \<Rightarrow>
          let i = info e;
              ident = getAttribute i ''id'';
              tag = tagName i;
              name = getAttribute i ''name'';
              ariaLabel = getAttribute i ''aria-label'';
              testId = (if nonEmpty (getAttribute i ''data-testid'')
                        then getAttribute i ''data-testid'' else getAttribute i ''data-test-id'');
              role = getAttribute i ''role''
          in if accepted doc ident (ById (StringOr ident)) then ById (StringOr ident)
             else if accepted doc name (TagAttr tag ''name'' (StringOr name))
               then TagAttr tag ''name'' (StringOr name)
             else if accepted doc ariaLabel (TagAttr tag ''aria-label'' (StringOr ariaLabel))
               then TagAttr tag ''aria-label'' (StringOr ariaLabel)
             else if accepted doc testId (TagAttr tag ''data-testid'' (StringOr testId))
               then TagAttr tag ''data-testid'' (StringOr testId)
             else if accepted doc role (TagAttr tag ''role'' (StringOr role))
               then TagAttr tag ''role'' (StringOr role)
             else ancestorWalk doc tag (rev p) [])"

text \<open>
  The path the loop returns when no prefix of it was unique: the segments of the nearest
  five levels, or of all levels below the root.
\<close>

fun cappedPath :: "element \<Rightarrow> nat list \<Rightarrow> (string \<times> nat) list \<Rightarrow> (string \<times> nat) list" where
  "cappedPath doc [] segments = segments"
| "cappedPath doc (n # up) segments =
     (if \<not> length segments < 5 then segments
      else
        let current = rev (n # up);
            currentTag = (case node_at doc current of None \<Rightarrow> [] | Some e \<Rightarrow> tagName (info e))
        in cappedPath doc up ((currentTag, nth_of_type doc current) # segments))"

subsection \<open>Resolution\<close>

text \<open>The selector list of \<open>findCandidates\<close>.\<close>

definition allowListed :: "node_info \<Rightarrow> bool" where
  "allowListed i =
     (tagName i = ''button'' \<or>
      (tagName i = ''a'' \<and> getAttribute i ''href'' \<noteq> None) \<or>
      (tagName i = ''a'' \<and> getAttribute i ''role'' = Some ''button'') \<or>
      tagName i = ''input'' \<or> tagName i = ''textarea'' \<or> tagName i = ''select'' \<or>
      getAttribute i ''role'' = Some ''button'' \<or>
      getAttribute i ''aria-label'' \<noteq> None \<or>
      getAttribute i ''name'' \<noteq> None \<or>
      getAttribute i ''placeholder'' \<noteq> None \<or>
      getAttribute i ''contenteditable'' = Some ''true'')"

record found =
  found_id :: string
  found_label :: string
  found_selector :: selector

text \<open>The elements of the document with their paths, in document order.\<close>

definition elements_of :: "element \<Rightarrow> (nat list \<times> node_info) list" where
  "elements_of doc =
     List.map_filter (\<lambda>p. case node_at doc p of None \<Rightarrow> None | Some e \<Rightarrow> Some (p, info e))
       (all_paths doc)"

text \<open>\<open>ranked\<close>: the elements kept, with their scores, best first; the sort is stable.\<close>

definition ranked :: "element \<Rightarrow> string \<Rightarrow> ((nat list \<times> node_info) \<times> nat) list" where
  "ranked doc query =
     take 8
       (sort_key (\<lambda>item. - int (snd item))
          (filter (\<lambda>item. snd item > 0)
             (map (\<lambda>el. (el, rankCandidate (snd el) query))
                (filter (\<lambda>el. isVisible (snd el))
                   (filter (\<lambda>el. isHTMLElement (snd el))
                      (filter (\<lambda>el. allowListed (snd el)) (elements_of doc)))))))"

definition findCandidates :: "element \<Rightarrow> string \<Rightarrow> found list" where
  "findCandidates doc query =
     map (\<lambda>(n, item).
            \<lparr>found_id = ''cand-'' @ string_of_nat (n + 1),
             found_label = getElementLabel (snd (fst item)),
             found_selector = buildSelector doc (fst (fst item))\<rparr>)
         (enumerate 0 (ranked doc query))"

section \<open>Concrete inputs\<close>

definition request0 :: tool_request where
  "request0 = \<lparr>req_actionId = ''a1'', req_tool = ''browser_click'', params_selector = None,
     params_query = None, params_url = None, params_label = None, params_text = None,
     ui_label = []\<rparr>"

text \<open>
  A click as the backend sends it, the label being \<open>clicking\<close> and the selector. The selector
  names the elements of class \<open>marketplace\<close> inside an \<open>order-list\<close> element.
\<close>

definition click_place_order :: tool_request where
  "click_place_order =
     request0\<lparr>params_selector := Some ''order-list .marketplace'',
              ui_label := ''clicking order-list .marketplace''\<rparr>"

definition click_submit_payment :: tool_request where
  "click_submit_payment =
     request0\<lparr>params_selector := Some ''#pay-btn'', ui_label := ''clicking Submit Payment''\<rparr>"

definition ext0 :: ext_state where
  "ext0 = \<lparr>autoRun = True, socket_open = True, pendingAction = None, pendingToolRequests = [],
     activeTab = Some \<lparr>tab_id = Some 7, tab_url = Some ''https://shop.example/cart''\<rparr>,
     canInject = True, navigate_ok = Inr (JObj [(''ok'', JBool True)]),
     answers = [Reply (Some (JObj [(''ok'', JBool True), (''data'', JObj [(''ok'', JBool True)])])),
                Reply (Some (JObj [(''ok'', JBool True), (''data'', JObj [(''ok'', JBool True)])]))],
     ext_log = []\<rparr>"

text \<open>
  A session in the middle of a turn, waiting for the result of \<open>browser_find\<close> under the
  action id \<open>call-1\<close>.
\<close>

definition session_find_pending :: SessionState where
  "session_find_pending =
     \<lparr>sessionId = ''session-1'', token = ''secret'', ws = \<lparr>ws_id = 1, ws_open = True\<rparr>,
      copilotSession = True, queue = [],
      run = Some \<lparr>cancelled = False, finalSent = False,
                  steps = [''Started run'', ''Finding elements for \"search box\"'']\<rparr>,
      pendingTools = [(''call-1'', \<lparr>timer = 0, pending_tool = browser_find\<rparr>)],
      lastFindCandidates = [],
      timers = [(0, ''call-1'', 5000)],
      nextTimer = 1,
      log = [Send (StepEvent ''Started run''),
             Send (StepEvent ''Finding elements for \"search box\"''),
             Send (ToolRequest ''call-1'' browser_find (JObj [(''query'', JStr ''search box'')])
                     ''finding search box'' 5000)]\<rparr>"

definition tool_result_ok :: json where
  "tool_result_ok =
     JObj [(''type'', JStr ''tool_result''), (''sessionId'', JStr ''session-1''),
           (''token'', JStr ''secret''), (''actionId'', JStr ''call-1''), (''ok'', JBool True),
           (''data'', JObj [(''candidates'', JArr [])])]"

definition tool_result_not_found :: json where
  "tool_result_not_found =
     JObj [(''type'', JStr ''tool_result''), (''sessionId'', JStr ''session-1''),
           (''token'', JStr ''secret''), (''actionId'', JStr ''call-1''), (''ok'', JBool False),
           (''error'', JStr ''NOT_FOUND'')]"

text \<open>The same session once \<open>browser_find\<close> has returned two candidates.\<close>

definition two_candidates :: "Candidate list" where
  "two_candidates =
     [\<lparr>cand_id = ''cand-1'', cand_label = ''Search'', cand_selector = ''input[name=\"q\"]''\<rparr>,
      \<lparr>cand_id = ''cand-2'', cand_label = ''Search'', cand_selector = ''#search-button''\<rparr>]"

definition session_two_candidates :: SessionState where
  "session_two_candidates =
     session_find_pending\<lparr>pendingTools := [], timers := [], lastFindCandidates := two_candidates\<rparr>"

definition click_args :: json where
  "click_args = JObj [(''selector'', JStr ''#search-button'')]"

text \<open>
  A call of \<open>browser_navigate\<close> under the id \<open>call-2\<close> and the result the extension sends for
  it. A result for \<open>call-1\<close>, the \<open>browser_find\<close> of \<open>session_find_pending\<close>, that holds one
  candidate, and the two events it causes: the message settles the promise of \<open>call-1\<close>,
  and the handler of \<open>call-1\<close> resumes with the value.
\<close>

definition navigate_args :: json where
  "navigate_args = JObj [(''url'', JStr ''example.com'')]"

definition navigate_result_ok :: json where
  "navigate_result_ok =
     JObj [(''type'', JStr ''tool_result''), (''sessionId'', JStr ''session-1''),
           (''token'', JStr ''secret''), (''actionId'', JStr ''call-2''), (''ok'', JBool True),
           (''data'', JObj [(''ok'', JBool True), (''url'', JStr ''https://example.com/'')])]"

definition one_candidate_data :: json where
  "one_candidate_data =
     JObj [(''candidates'',
            JArr [JObj [(''id'', JStr ''cand-1''), (''label'', JStr ''Search''),
                        (''selector'', JStr ''#search-button'')]])]"

definition find_result_late :: json where
  "find_result_late =
     JObj [(''type'', JStr ''tool_result''), (''sessionId'', JStr ''session-1''),
           (''token'', JStr ''secret''), (''actionId'', JStr ''call-1''), (''ok'', JBool True),
           (''data'', one_candidate_data)]"

definition late_find_events :: "event list" where
  "late_find_events = [ToolResultReceived find_result_late, FindResumed (Some one_candidate_data)]"


text \<open>A backend with that session registered, a socket, and some inbound envelopes.\<close>

definition backend0 :: backend where
  "backend0 = \<lparr>sessions = [''session-1'' \<mapsto> session_find_pending], pairingToken = ''secret'',
     createSession_ok = True, closes = []\<rparr>"

definition socket0 :: WebSocket where
  "socket0 = \<lparr>ws_id = 1, ws_open = True\<rparr>"

definition envelope_without_token :: json where
  "envelope_without_token = JObj [(''type'', JStr ''cancel''), (''sessionId'', JStr ''session-1'')]"

definition envelope_wrong_token :: json where
  "envelope_wrong_token =
     JObj [(''type'', JStr ''cancel''), (''sessionId'', JStr ''session-1''), (''token'', JStr ''guess'')]"

text \<open>
  The extension with auto-run enabled, holding the request to click \<open>Submit Payment\<close> for
  approval, and the same with the socket to the backend closed.
\<close>

definition ext_awaiting_approval :: ext_state where
  "ext_awaiting_approval = snd (onToolRequest ext0 click_submit_payment)"

definition ext_awaiting_offline :: ext_state where
  "ext_awaiting_offline = ext_awaiting_approval\<lparr>socket_open := False\<rparr>"

text \<open>Pages. \<open>el\<close> builds a rendered HTML element whose two text properties agree.\<close>

definition el :: "string \<Rightarrow> (string \<times> string) list \<Rightarrow> string \<Rightarrow> element list \<Rightarrow> element" where
  "el t as txt cs =
     Element \<lparr>tagName = t, attributes = as, innerText = txt, textContent = txt,
              isHTMLElement = True, inputValue = (if t = ''input'' then Some [] else None),
              rendered = True\<rparr> cs"

text \<open>
  A page with one visible \<open><input name="q" placeholder="Search">\<close> and a visible button
  labelled \<open>Login\<close>, which matches the query \<open>search box\<close> nowhere.
\<close>

definition page_search :: element where
  "page_search =
     el ''html'' [] ''Login''
       [el ''head'' [] [] [],
        el ''body'' [] ''Login''
          [el ''input'' [(''name'', ''q''), (''placeholder'', ''Search'')] [] [],
           el ''button'' [] ''Login'' []]]"

text \<open>A page with two cards of the same shape, each a \<open>span\<close> under four nested \<open>div\<close>s.\<close>

definition card :: "string \<Rightarrow> element" where
  "card txt =
     el ''section'' [] txt
       [el ''div'' [] txt [el ''div'' [] txt [el ''div'' [] txt [el ''div'' [] txt
          [el ''span'' [] txt []]]]]]"

definition page_cards :: element where
  "page_cards =
     el ''html'' [] ''AB'' [el ''head'' [] [] [], el ''body'' [] ''AB'' [card ''A'', card ''B'']]"

definition first_span :: "nat list" where
  "first_span = [1, 0, 0, 0, 0, 0, 0]"

section \<open>Properties of the approval gate\<close>

lemmas gate_eval = requiresManualApproval_def StringOr_def DANGEROUS_CLICK_RE_test_def
  DANGEROUS_CLICK_WORDS_def toLowerCase_def toLowerChar_def

lemma startsWith_prefix: "startsWith s w \<longleftrightarrow> prefix w s"
  by (induction s w rule: startsWith.induct) auto

text \<open>\<open>str_includes\<close> is the relation of being a contiguous part.\<close>

lemma str_includes_sublist: "str_includes s w \<longleftrightarrow> sublist w s"
  by (induction s) (auto simp: startsWith_prefix sublist_Cons_right)

lemma str_includes_append_left: "str_includes s w \<Longrightarrow> str_includes (s @ t) w"
  unfolding str_includes_sublist by (metis sublist_order.order_trans sublist_append_rightI)

lemma str_includes_append_right: "str_includes s w \<Longrightarrow> str_includes (t @ s) w"
  unfolding str_includes_sublist by (metis sublist_order.order_trans sublist_append_leftI)

lemma DANGEROUS_CLICK_RE_test_appendI1:
  assumes "DANGEROUS_CLICK_RE_test a"
  shows "DANGEROUS_CLICK_RE_test (a @ b)"
proof -
  from assms obtain w where w: "w \<in> set DANGEROUS_CLICK_WORDS" "str_includes (toLowerCase a) w"
    unfolding DANGEROUS_CLICK_RE_test_def list_ex_iff by blast
  have "toLowerCase (a @ b) = toLowerCase a @ toLowerCase b"
    by (simp add: toLowerCase_def)
  with w(2) have "str_includes (toLowerCase (a @ b)) w"
    by (simp add: str_includes_append_left)
  with w(1) show ?thesis
    unfolding DANGEROUS_CLICK_RE_test_def list_ex_iff by blast
qed

lemma DANGEROUS_CLICK_RE_test_appendI2:
  assumes "DANGEROUS_CLICK_RE_test b"
  shows "DANGEROUS_CLICK_RE_test (a @ b)"
proof -
  from assms obtain w where w: "w \<in> set DANGEROUS_CLICK_WORDS" "str_includes (toLowerCase b) w"
    unfolding DANGEROUS_CLICK_RE_test_def list_ex_iff by blast
  have "toLowerCase (a @ b) = toLowerCase a @ toLowerCase b"
    by (simp add: toLowerCase_def)
  with w(2) have "str_includes (toLowerCase (a @ b)) w"
    by (simp add: str_includes_append_right)
  with w(1) show ?thesis
    unfolding DANGEROUS_CLICK_RE_test_def list_ex_iff by blast
qed

text \<open>
  C1, as the claim states it, fails: with auto-run enabled, the click on
  \<open>order-list .marketplace\<close> requires approval although neither its label nor its selector
  matches the vocabulary. The expression is tested on the label, a space and the selector
  joined, and there \<open>place order\<close> occurs across the space.
\<close>

theorem requiresManualApproval_label_or_selector_counterexample:
  "requiresManualApproval ext0 click_place_order \<and> autoRun ext0 \<and>
   \<not> DANGEROUS_CLICK_RE_test (ui_label click_place_order) \<and>
   \<not> DANGEROUS_CLICK_RE_test (StringOr (params_selector click_place_order))"
  by (simp add: click_place_order_def request0_def ext0_def gate_eval)

text \<open>
  C1, amended: the approval predicate holds if and only if the tool is \<open>browser_click\<close> or
  \<open>browser_type\<close> and either auto-run is disabled, or the tool is \<open>browser_click\<close> and the
  string made of the label, a space and the selector matches the dangerous-action
  vocabulary. That string matches whenever the label or the selector matches, so a click
  with a dangerous label or selector always requires approval.
\<close>

theorem requiresManualApproval_policy:
  "(requiresManualApproval state r \<longleftrightarrow>
      (req_tool r = ''browser_click'' \<or> req_tool r = ''browser_type'') \<and>
      (\<not> autoRun state \<or>
       (req_tool r = ''browser_click'' \<and>
        DANGEROUS_CLICK_RE_test (ui_label r @ '' '' @ StringOr (params_selector r)))))
   \<and> (req_tool r = ''browser_click'' \<and>
        (DANGEROUS_CLICK_RE_test (ui_label r) \<or>
         DANGEROUS_CLICK_RE_test (StringOr (params_selector r)))
       \<longrightarrow> requiresManualApproval state r)"
proof -
  have join: "DANGEROUS_CLICK_RE_test (ui_label r @ '' '' @ StringOr (params_selector r))"
    if "DANGEROUS_CLICK_RE_test (ui_label r) \<or>
        DANGEROUS_CLICK_RE_test (StringOr (params_selector r))"
    using that DANGEROUS_CLICK_RE_test_appendI1 DANGEROUS_CLICK_RE_test_appendI2 by blast
  show ?thesis
    using join by (auto simp: requiresManualApproval_def Let_def)
qed

theorem requiresManualApproval_policy_witness:
  "requiresManualApproval ext0 click_submit_payment \<and> autoRun ext0 \<and>
   DANGEROUS_CLICK_RE_test (ui_label click_submit_payment) \<and>
   \<not> requiresManualApproval ext0 (click_submit_payment\<lparr>req_tool := ''browser_type''\<rparr>) \<and>
   requiresManualApproval (ext0\<lparr>autoRun := False\<rparr>)
     (click_submit_payment\<lparr>req_tool := ''browser_type''\<rparr>) \<and>
   \<not> requiresManualApproval (ext0\<lparr>autoRun := False\<rparr>)
     (click_submit_payment\<lparr>req_tool := ''browser_find''\<rparr>)"
  using requiresManualApproval_policy [of ext0 click_submit_payment]
        requiresManualApproval_policy [of ext0 "click_submit_payment\<lparr>req_tool := ''browser_type''\<rparr>"]
        requiresManualApproval_policy [of "ext0\<lparr>autoRun := False\<rparr>"
          "click_submit_payment\<lparr>req_tool := ''browser_type''\<rparr>"]
        requiresManualApproval_policy [of "ext0\<lparr>autoRun := False\<rparr>"
          "click_submit_payment\<lparr>req_tool := ''browser_find''\<rparr>"]
  by (simp add: click_submit_payment_def request0_def ext0_def StringOr_def
        DANGEROUS_CLICK_RE_test_def DANGEROUS_CLICK_WORDS_def toLowerCase_def toLowerChar_def)

section \<open>The broker invariant\<close>

lemma settled_append: "settled (xs @ ys) = settled xs @ settled ys"
  by (induction xs rule: settled.induct) auto

lemma broker_inv_iff:
  "broker_inv s \<longleftrightarrow>
     distinct (map fst (pendingTools s)) \<and> distinct (map fst (timers s)) \<and>
     (\<forall>k p. map_of (pendingTools s) k = Some p \<longrightarrow> (\<exists>ms. map_of (timers s) (timer p) = Some (k, ms))) \<and>
     (\<forall>h v. map_of (timers s) h = Some v \<longrightarrow> h < nextTimer s \<and> h \<notin> set (settled (log s))) \<and>
     (\<forall>h \<in> set (settled (log s)). h < nextTimer s) \<and>
     distinct (settled (log s))"
proof -
  have A: "list_all (armed_for s) (pendingTools s) \<longleftrightarrow>
      (\<forall>k p. map_of (pendingTools s) k = Some p \<longrightarrow> (\<exists>ms. map_of (timers s) (timer p) = Some (k, ms)))"
    if "distinct (map fst (pendingTools s))"
  proof -
    have "list_all (armed_for s) (pendingTools s) \<longleftrightarrow>
        (\<forall>k p. (k, p) \<in> set (pendingTools s) \<longrightarrow> (\<exists>ms. map_of (timers s) (timer p) = Some (k, ms)))"
      unfolding list_all_iff armed_for_def
      by (rule iffI; clarsimp split: option.splits prod.splits; fastforce)
    then show ?thesis using that by simp
  qed
  have B: "list_all (\<lambda>h. h < nextTimer s \<and> h \<notin> set (settled (log s))) (map fst (timers s)) \<longleftrightarrow>
      (\<forall>h v. map_of (timers s) h = Some v \<longrightarrow> h < nextTimer s \<and> h \<notin> set (settled (log s)))"
    if "distinct (map fst (timers s))"
    using that by (force simp: list_all_iff dest: map_of_SomeD)
  show ?thesis
  proof (cases "distinct (map fst (pendingTools s)) \<and> distinct (map fst (timers s))")
    case True
    then have "distinct (map fst (pendingTools s))" "distinct (map fst (timers s))" by simp_all
    from A [OF this(1)] B [OF this(2)] True show ?thesis
      unfolding broker_inv_def by (simp add: list_all_iff)
  next
    case False
    then show ?thesis unfolding broker_inv_def by blast
  qed
qed

lemma broker_inv_cong:
  assumes "pendingTools s' = pendingTools s" "timers s' = timers s" "nextTimer s' = nextTimer s"
    "settled (log s') = settled (log s)"
  shows "broker_inv s' = broker_inv s"
  by (simp add: broker_inv_iff assms)

lemma send_fields [simp]:
  "pendingTools (send s m) = pendingTools s" "timers (send s m) = timers s"
  "nextTimer (send s m) = nextTimer s" "settled (log (send s m)) = settled (log s)"
  "run (send s m) = run s" "lastFindCandidates (send s m) = lastFindCandidates s"
  "ws (send s m) = ws s" "copilotSession (send s m) = copilotSession s"
  by (simp_all add: send_def settled_append)

lemma appendStep_fields [simp]:
  "pendingTools (appendStep s t) = pendingTools s" "timers (appendStep s t) = timers s"
  "nextTimer (appendStep s t) = nextTimer s" "settled (log (appendStep s t)) = settled (log s)"
  "lastFindCandidates (appendStep s t) = lastFindCandidates s"
  "ws (appendStep s t) = ws s" "copilotSession (appendStep s t) = copilotSession s"
  by (simp_all add: appendStep_def sendStep_def split: option.splits)

lemma settle_absent:
  "as_string (jprop m ''actionId'') = Some a \<Longrightarrow> map_of (pendingTools s) a = None \<Longrightarrow> settle s m = s"
  by (simp add: settle_def)

lemma settle_hit:
  assumes "as_string (jprop m ''actionId'') = Some a" "map_of (pendingTools s) a = Some p"
  shows "settle s m = s\<lparr>timers := AList.delete (timer p) (timers s),
            pendingTools := AList.delete a (pendingTools s),
            log := log s @ [if truthy (jprop m ''ok'') then Resolved (timer p) (jprop m ''data'')
                            else Rejected (timer p) (toErrorCode (jprop m ''error''))]\<rparr>"
  using assms by (simp add: settle_def clearTimeout_def Let_def)

lemma settled_single [simp]:
  "settled [if b then Resolved h d else Rejected h c] = [h]"
  by simp

text \<open>Removing a pending call together with its timer and settling its promise keeps the invariant.\<close>

lemma broker_inv_remove:
  assumes inv: "broker_inv s"
    and armed: "map_of (timers s) h = Some (a, ms)"
    and eff: "settled [e] = [h]"
  shows "broker_inv (s\<lparr>timers := AList.delete h (timers s),
                       pendingTools := AList.delete a (pendingTools s),
                       log := log s @ [e]\<rparr>)"
proof -
  from inv have D1: "distinct (map fst (pendingTools s))" and D2: "distinct (map fst (timers s))"
    and A: "\<And>k p. map_of (pendingTools s) k = Some p \<Longrightarrow> \<exists>ms. map_of (timers s) (timer p) = Some (k, ms)"
    and B: "\<And>h v. map_of (timers s) h = Some v \<Longrightarrow> h < nextTimer s \<and> h \<notin> set (settled (log s))"
    and C: "\<And>h. h \<in> set (settled (log s)) \<Longrightarrow> h < nextTimer s"
    and E: "distinct (settled (log s))"
    unfolding broker_inv_iff by blast+
  let ?s' = "s\<lparr>timers := AList.delete h (timers s),
                 pendingTools := AList.delete a (pendingTools s), log := log s @ [e]\<rparr>"
  have hB: "h < nextTimer s" "h \<notin> set (settled (log s))" using B [OF armed] by simp_all
  have A': "\<exists>ms. map_of (timers ?s') (timer p) = Some (k, ms)"
    if "map_of (pendingTools ?s') k = Some p" for k p
  proof -
    from that have ka: "k \<noteq> a" and kp: "map_of (pendingTools s) k = Some p"
      by (auto simp: delete_conv' split: if_splits)
    from A [OF kp] obtain ms' where t: "map_of (timers s) (timer p) = Some (k, ms')" by blast
    with armed ka have "timer p \<noteq> h" by auto
    with t show ?thesis by (simp add: delete_conv')
  qed
  have B': "h' < nextTimer ?s' \<and> h' \<notin> set (settled (log ?s'))"
    if "map_of (timers ?s') h' = Some v" for h' v
  proof -
    from that have "h' \<noteq> h" and "map_of (timers s) h' = Some v"
      by (auto simp: delete_conv' split: if_splits)
    with B [of h' v] eff show ?thesis by (simp add: settled_append)
  qed
  have C': "\<forall>h' \<in> set (settled (log ?s')). h' < nextTimer ?s'"
    using C hB eff by (auto simp: settled_append)
  have E': "distinct (settled (log ?s'))"
    using E hB eff by (simp add: settled_append)
  show ?thesis
    unfolding broker_inv_iff
    using D1 D2 A' B' C' E' by (simp add: distinct_delete)
qed

lemma broker_inv_settle: "broker_inv s \<Longrightarrow> broker_inv (settle s m)"
proof (cases "as_string (jprop m ''actionId'')")
  case None
  then show "broker_inv s \<Longrightarrow> broker_inv (settle s m)" by (simp add: settle_def)
next
  case (Some a)
  assume inv: "broker_inv s"
  show "broker_inv (settle s m)"
  proof (cases "map_of (pendingTools s) a")
    case None
    with Some inv show ?thesis by (simp add: settle_absent)
  next
    case (Some p)
    from inv Some obtain ms where "map_of (timers s) (timer p) = Some (a, ms)"
      unfolding broker_inv_iff by blast
    from broker_inv_remove [OF inv this, of "if truthy (jprop m ''ok'') then Resolved (timer p) (jprop m ''data'')
                            else Rejected (timer p) (toErrorCode (jprop m ''error''))"]
    show ?thesis using settle_hit [OF \<open>as_string (jprop m ''actionId'') = Some a\<close> Some] by simp
  qed
qed

lemma timerFired_armed:
  "map_of (timers s) h = Some (a, ms) \<Longrightarrow>
   timerFired s h = s\<lparr>timers := AList.delete h (timers s),
                       pendingTools := AList.delete a (pendingTools s),
                       log := log s @ [Rejected h ''TIMEOUT'']\<rparr>"
  by (simp add: timerFired_def)

lemma broker_inv_timerFired: "broker_inv s \<Longrightarrow> broker_inv (timerFired s h)"
proof (cases "map_of (timers s) h")
  case None
  then show "broker_inv s \<Longrightarrow> broker_inv (timerFired s h)" by (simp add: timerFired_def)
next
  case (Some v)
  assume inv: "broker_inv s"
  obtain a ms where v: "v = (a, ms)" by (cases v)
  from broker_inv_remove [OF inv Some [unfolded v], of "Rejected h ''TIMEOUT''"]
  show "broker_inv (timerFired s h)" using timerFired_armed [OF Some [unfolded v]] by simp
qed

lemma requestToolRoundTrip_closed:
  "\<not> ws_open (ws s) \<Longrightarrow> requestToolRoundTrip s a tool params label = Inl ''EXTENSION_NOT_READY''"
  by (simp add: requestToolRoundTrip_def)

lemma requestToolRoundTrip_open:
  "ws_open (ws s) \<Longrightarrow>
   requestToolRoundTrip s a tool params label =
     Inr (s\<lparr>nextTimer := Suc (nextTimer s),
            timers := AList.update (nextTimer s) (a, toolTimeoutMs tool) (timers s),
            pendingTools := AList.update a \<lparr>timer = nextTimer s, pending_tool = tool\<rparr> (pendingTools s),
            log := log s @ [Send (ToolRequest a tool params label (toolTimeoutMs tool))]\<rparr>,
          nextTimer s)"
  by (simp add: requestToolRoundTrip_def Let_def send_def)

lemma broker_inv_issue:
  assumes inv: "broker_inv s"
  shows "broker_inv (s\<lparr>nextTimer := Suc (nextTimer s),
            timers := AList.update (nextTimer s) (a, ms) (timers s),
            pendingTools := AList.update a \<lparr>timer = nextTimer s, pending_tool = tool\<rparr> (pendingTools s),
            log := log s @ [Send m]\<rparr>)"
proof -
  from inv have D1: "distinct (map fst (pendingTools s))" and D2: "distinct (map fst (timers s))"
    and A: "\<And>k p. map_of (pendingTools s) k = Some p \<Longrightarrow> \<exists>ms. map_of (timers s) (timer p) = Some (k, ms)"
    and B: "\<And>h v. map_of (timers s) h = Some v \<Longrightarrow> h < nextTimer s \<and> h \<notin> set (settled (log s))"
    and C: "\<And>h. h \<in> set (settled (log s)) \<Longrightarrow> h < nextTimer s"
    and E: "distinct (settled (log s))"
    unfolding broker_inv_iff by blast+
  let ?h = "nextTimer s"
  let ?s' = "s\<lparr>nextTimer := Suc ?h, timers := AList.update ?h (a, ms) (timers s),
            pendingTools := AList.update a \<lparr>timer = ?h, pending_tool = tool\<rparr> (pendingTools s),
            log := log s @ [Send m]\<rparr>"
  have A': "\<exists>ms'. map_of (timers ?s') (timer p) = Some (k, ms')"
    if "map_of (pendingTools ?s') k = Some p" for k p
  proof (cases "k = a")
    case True
    with that have "timer p = ?h" by (auto simp: update_conv')
    with True show ?thesis by (simp add: update_conv')
  next
    case False
    with that have kp: "map_of (pendingTools s) k = Some p" by (simp add: update_conv')
    from A [OF kp] obtain ms' where t: "map_of (timers s) (timer p) = Some (k, ms')" by blast
    from B [OF t] have "timer p \<noteq> ?h" by simp
    with t show ?thesis by (simp add: update_conv')
  qed
  have B': "h' < nextTimer ?s' \<and> h' \<notin> set (settled (log ?s'))"
    if "map_of (timers ?s') h' = Some v" for h' v
  proof (cases "h' = ?h")
    case True
    with C show ?thesis by (auto simp: settled_append)
  next
    case False
    with that have "map_of (timers s) h' = Some v" by (simp add: update_conv')
    from B [OF this] show ?thesis by (simp add: settled_append)
  qed
  have C': "\<forall>h' \<in> set (settled (log ?s')). h' < nextTimer ?s'"
    using C by (auto simp: settled_append less_Suc_eq)
  have E': "distinct (settled (log ?s'))"
    using E by (simp add: settled_append)
  show ?thesis
    unfolding broker_inv_iff
    using D1 D2 A' B' C' E' by (simp add: distinct_update)
qed

lemma broker_inv_requestToolRoundTrip:
  "broker_inv s \<Longrightarrow> requestToolRoundTrip s a tool params label = Inr (s', h) \<Longrightarrow> broker_inv s'"
  by (cases "ws_open (ws s)")
     (auto simp: requestToolRoundTrip_open requestToolRoundTrip_closed intro: broker_inv_issue)

lemma rejectAll_fields [simp]:
  "pendingTools (rejectAll s ents) = pendingTools s"
  "nextTimer (rejectAll s ents) = nextTimer s"
  "run (rejectAll s ents) = run s"
  "ws (rejectAll s ents) = ws s"
  "copilotSession (rejectAll s ents) = copilotSession s"
  "lastFindCandidates (rejectAll s ents) = lastFindCandidates s"
  by (induction s ents rule: rejectAll.induct; simp add: clearTimeout_def)+

lemma rejectAll_log:
  "log (rejectAll s ents) = log s @ map (\<lambda>kp. Rejected (timer (snd kp)) ''CANCELLED'') ents"
  by (induction s ents rule: rejectAll.induct) (simp_all add: clearTimeout_def)

lemma rejectAll_timers:
  "timers (rejectAll s ents) =
     filter (\<lambda>hv. fst hv \<notin> set (map (\<lambda>kp. timer (snd kp)) ents)) (timers s)"
proof (induction ents arbitrary: s)
  case Nil
  then show ?case by simp
next
  case (Cons kp rest)
  obtain k pending where kp: "kp = (k, pending)" by (cases kp)
  let ?s1 = "(clearTimeout s (timer pending))\<lparr>log := log s @ [Rejected (timer pending) ''CANCELLED'']\<rparr>"
  have "timers (rejectAll s (kp # rest)) = timers (rejectAll ?s1 rest)"
    by (simp add: kp)
  also have "\<dots> = filter (\<lambda>hv. fst hv \<notin> set (map (\<lambda>kp. timer (snd kp)) rest)) (timers ?s1)"
    by (rule Cons.IH)
  also have "timers ?s1 = filter (\<lambda>hv. fst hv \<noteq> timer pending) (timers s)"
    by (simp add: clearTimeout_def AList.delete_eq case_prod_unfold eq_commute)
  finally show ?case
    by (auto simp: kp intro!: filter_cong)
qed

lemma settled_rejected [simp]:
  "settled (map (\<lambda>kp. Rejected (f kp) c) ents) = map f ents"
  by (induction ents) simp_all

lemma pending_timers_distinct:
  assumes inv: "broker_inv s"
  shows "distinct (map (\<lambda>kp. timer (snd kp)) (pendingTools s))"
proof -
  from inv have D1: "distinct (map fst (pendingTools s))"
    and A: "\<And>k p. map_of (pendingTools s) k = Some p \<Longrightarrow> \<exists>ms. map_of (timers s) (timer p) = Some (k, ms)"
    unfolding broker_inv_iff by blast+
  have "inj_on (\<lambda>kp. timer (snd kp)) (set (pendingTools s))"
  proof (rule inj_onI)
    fix x y assume x: "x \<in> set (pendingTools s)" and y: "y \<in> set (pendingTools s)"
      and eq: "timer (snd x) = timer (snd y)"
    from x D1 have mx: "map_of (pendingTools s) (fst x) = Some (snd x)" by simp
    from y D1 have my: "map_of (pendingTools s) (fst y) = Some (snd y)" by simp
    from A [OF mx] A [OF my] eq have "fst x = fst y" by auto
    with mx my show "x = y" by (simp add: prod_eq_iff)
  qed
  moreover from D1 have "distinct (pendingTools s)" by (simp add: distinct_map)
  ultimately show ?thesis by (simp add: distinct_map)
qed

lemma broker_inv_cancel_all:
  assumes inv: "broker_inv s"
    and s': "pendingTools s' = []" "nextTimer s' = nextTimer s"
      "timers s' = filter (\<lambda>hv. fst hv \<notin> set (map (\<lambda>kp. timer (snd kp)) (pendingTools s))) (timers s)"
      "settled (log s') = settled (log s) @ map (\<lambda>kp. timer (snd kp)) (pendingTools s)"
  shows "broker_inv s'"
proof -
  from inv have D1: "distinct (map fst (pendingTools s))" and D2: "distinct (map fst (timers s))"
    and A: "\<And>k p. map_of (pendingTools s) k = Some p \<Longrightarrow> \<exists>ms. map_of (timers s) (timer p) = Some (k, ms)"
    and B: "\<And>h v. map_of (timers s) h = Some v \<Longrightarrow> h < nextTimer s \<and> h \<notin> set (settled (log s))"
    and C: "\<And>h. h \<in> set (settled (log s)) \<Longrightarrow> h < nextTimer s"
    and E: "distinct (settled (log s))"
    unfolding broker_inv_iff by blast+
  let ?T = "map (\<lambda>kp. timer (snd kp)) (pendingTools s)"
  have armed: "\<exists>v. map_of (timers s) h = Some v" if "h \<in> set ?T" for h
  proof -
    from that obtain k p where "(k, p) \<in> set (pendingTools s)" "h = timer p" by auto
    with D1 A [of k p] show ?thesis by auto
  qed
  have D2': "distinct (map fst (timers s'))"
    using D2 by (simp add: s' distinct_map_filter)
  have B': "h < nextTimer s' \<and> h \<notin> set (settled (log s'))" if "map_of (timers s') h = Some v" for h v
  proof -
    from that have "(h, v) \<in> set (timers s')" by (rule map_of_SomeD)
    then have mem: "(h, v) \<in> set (timers s)" and notin: "h \<notin> set ?T" by (auto simp: s')
    from mem D2 have "map_of (timers s) h = Some v" by simp
    from B [OF this] notin show ?thesis by (simp add: s')
  qed
  have C': "\<forall>h \<in> set (settled (log s')). h < nextTimer s'"
  proof
    fix h assume "h \<in> set (settled (log s'))"
    then consider "h \<in> set (settled (log s))" | "h \<in> set ?T" by (auto simp: s')
    then show "h < nextTimer s'"
    proof cases
      case 1 with C show ?thesis by (simp add: s')
    next
      case 2 with armed B show ?thesis by (fastforce simp: s')
    qed
  qed
  have E': "distinct (settled (log s'))"
  proof -
    have "set (settled (log s)) \<inter> set ?T = {}"
      using armed B by fastforce
    with E pending_timers_distinct [OF inv] show ?thesis by (simp add: s')
  qed
  show ?thesis
    unfolding broker_inv_iff
  proof (intro conjI)
    show "distinct (map fst (pendingTools s'))" by (simp add: s'(1))
    show "distinct (map fst (timers s'))" by (rule D2')
    show "\<forall>k p. map_of (pendingTools s') k = Some p \<longrightarrow>
            (\<exists>ms. map_of (timers s') (timer p) = Some (k, ms))" by (simp add: s'(1))
    show "\<forall>h v. map_of (timers s') h = Some v \<longrightarrow>
            h < nextTimer s' \<and> h \<notin> set (settled (log s'))" using B' by blast
    show "\<forall>h \<in> set (settled (log s')). h < nextTimer s'" by (rule C')
    show "distinct (settled (log s'))" by (rule E')
  qed
qed

lemma cancelRun_resume_fields [simp]:
  "pendingTools (snd (cancelRun_resume s)) = pendingTools s"
  "nextTimer (snd (cancelRun_resume s)) = nextTimer s"
  "timers (snd (cancelRun_resume s)) = timers s"
  "settled (log (snd (cancelRun_resume s))) = settled (log s)"
  "lastFindCandidates (snd (cancelRun_resume s)) = lastFindCandidates s"
  by (simp_all add: cancelRun_resume_def Let_def sendFinal_def split: option.splits)

lemma broker_inv_cancelRun_resume: "broker_inv (snd (cancelRun_resume s)) = broker_inv s"
  by (rule broker_inv_cong) simp_all

lemma cancelRun_begin_idle: "run s = None \<Longrightarrow> cancelRun_begin s = s"
  by (simp add: cancelRun_begin_def)

lemma cancelRun_begin_fields:
  assumes "run s = Some r"
  shows "pendingTools (cancelRun_begin s) = []"
    and "nextTimer (cancelRun_begin s) = nextTimer s"
    and "timers (cancelRun_begin s) =
      filter (\<lambda>hv. fst hv \<notin> set (map (\<lambda>kp. timer (snd kp)) (pendingTools s))) (timers s)"
    and "settled (log (cancelRun_begin s)) = settled (log s) @ map (\<lambda>kp. timer (snd kp)) (pendingTools s)"
    and "lastFindCandidates (cancelRun_begin s) = lastFindCandidates s"
  using assms
  by (simp_all add: cancelRun_begin_def Let_def rejectAll_timers rejectAll_log settled_append)


lemma broker_inv_cancelRun_begin: "broker_inv s \<Longrightarrow> broker_inv (cancelRun_begin s)"
proof (cases "run s")
  case None
  then show "broker_inv s \<Longrightarrow> broker_inv (cancelRun_begin s)" by (simp add: cancelRun_begin_idle)
next
  case (Some r)
  assume "broker_inv s"
  from broker_inv_cancel_all [OF this cancelRun_begin_fields(1-4) [OF Some]]
  show "broker_inv (cancelRun_begin s)" .
qed

lemma broker_inv_appendStep [simp]: "broker_inv (appendStep s t) = broker_inv s"
  by (rule broker_inv_cong) simp_all

lemma broker_inv_send [simp]: "broker_inv (send s m) = broker_inv s"
  by (rule broker_inv_cong) simp_all

lemma broker_inv_run_update [simp]: "broker_inv (s\<lparr>run := r\<rparr>) = broker_inv s"
  by (rule broker_inv_cong) simp_all

lemma broker_inv_candidates_update [simp]: "broker_inv (s\<lparr>lastFindCandidates := c\<rparr>) = broker_inv s"
  by (rule broker_inv_cong) simp_all

lemma broker_inv_dispatch:
  "broker_inv s \<Longrightarrow> broker_inv (snd (awaitRoundTrip s (requestToolRoundTrip s a tool params label)))"
  by (cases "ws_open (ws s)")
     (simp_all add: awaitRoundTrip_def requestToolRoundTrip_open requestToolRoundTrip_closed broker_inv_issue)

lemma broker_inv_tool_begin:
  assumes "broker_inv s"
  shows "broker_inv (snd (tool_begin s tool args toolCallId))"
proof (cases tool)
  case browser_find
  with assms show ?thesis
    by (simp add: tool_begin_def browser_find_begin_def Let_def broker_inv_dispatch)
next
  case browser_highlight
  with assms show ?thesis
    by (simp add: tool_begin_def browser_highlight_begin_def Let_def broker_inv_dispatch
        split: sum.splits)
next
  case browser_click
  with assms show ?thesis
    by (simp add: tool_begin_def browser_click_begin_def Let_def broker_inv_dispatch
        split: sum.splits)
next
  case browser_type
  with assms show ?thesis
    by (simp add: tool_begin_def browser_type_begin_def Let_def broker_inv_dispatch
        split: sum.splits)
next
  case browser_navigate
  with assms show ?thesis
    by (simp add: tool_begin_def browser_navigate_begin_def Let_def broker_inv_dispatch)
next
  case browser_select_candidate
  with assms show ?thesis
    by (simp add: tool_begin_def browser_select_candidate_handler_def Let_def split: option.splits)
qed

lemma broker_inv_step: "broker_inv s \<Longrightarrow> broker_inv (step s e)"
proof (cases e)
  case (ToolCall tool args toolCallId)
  then show "broker_inv s \<Longrightarrow> broker_inv (step s e)" by (simp add: broker_inv_tool_begin)
next
  case (ToolResultReceived m)
  then show "broker_inv s \<Longrightarrow> broker_inv (step s e)" by (simp add: broker_inv_settle)
next
  case (TimerFired h)
  then show "broker_inv s \<Longrightarrow> broker_inv (step s e)" by (simp add: broker_inv_timerFired)
next
  case CancelReceived
  then show "broker_inv s \<Longrightarrow> broker_inv (step s e)" by (simp add: broker_inv_cancelRun_begin)
next
  case CancelResumed
  then show "broker_inv s \<Longrightarrow> broker_inv (step s e)" by (simp add: broker_inv_cancelRun_resume)
qed (simp_all add: browser_navigate_resume_def browser_find_resume_def Let_def on_user_approval_def
      keepAlive_def on_message_delta_def on_tool_execution_start_def on_tool_execution_complete_def
      handleUserMessage_begin_def handleUserMessage_done_def handleUserMessage_failed_def
      sendDelta_def sendFinal_def split: option.splits)

lemma broker_inv_steps_from: "broker_inv s \<Longrightarrow> broker_inv (steps_from s es)"
  unfolding steps_from_def by (induction es arbitrary: s) (simp_all add: broker_inv_step)

lemma broker_inv_createSessionState: "broker_inv (createSessionState sid tok socket)"
  by (simp add: broker_inv_def createSessionState_def)

section \<open>Settlement and timeout of tool calls\<close>

lemma session_find_pending_reached:
  "session_find_pending =
     snd (tool_begin (step (createSessionState ''session-1'' ''secret'' \<lparr>ws_id = 1, ws_open = True\<rparr>)
                       (TurnBegin (Some (JStr ''find the search box''))))
        browser_find (JObj [(''query'', JStr ''search box'')]) ''call-1'')"
  by (simp add: session_find_pending_def createSessionState_def handleUserMessage_begin_def
      extractDomainHint_throws_def appendStep_def sendStep_def send_def tool_begin_def browser_find_begin_def getStringArg_def
      jprop_def trim_def isSpace_def awaitRoundTrip_def requestToolRoundTrip_def Let_def
      toolTimeoutMs_def TOOL_TIMEOUT_MS_def)

lemma toErrorCode_known:
  "c \<in> set ToolResultError \<Longrightarrow> toErrorCode (Some (JStr c)) = c"
  by (auto simp: toErrorCode_def ToolResultError_def)

lemma onToolResult_at:
  "reg sid = Some state \<Longrightarrow> as_string (jprop message ''sessionId'') = Some sid
   \<Longrightarrow> onToolResult reg message = reg(sid \<mapsto> settle state message)"
  by (simp add: onToolResult_def)

text \<open>
  C4: a \<open>tool_result\<close> whose action id is in the pending map of its session clears the
  timer, removes the entry and settles the promise, resolving it when \<open>ok\<close> holds and
  rejecting it with the given code of the taxonomy otherwise; after that the promise has been
  settled exactly once, and a further \<open>tool_result\<close> for the same action id changes nothing.
  A \<open>tool_result\<close> whose action id is not in the pending map changes nothing either.
\<close>

theorem onToolResult_settles_once:
  assumes "reg sid = Some state" and "broker_inv state"
    and "as_string (jprop message ''sessionId'') = Some sid"
    and "as_string (jprop message ''actionId'') = Some a"
  shows "(map_of (pendingTools state) a = None \<longrightarrow> onToolResult reg message = reg) \<and>
         (\<forall>pending. map_of (pendingTools state) a = Some pending \<longrightarrow>
            (\<exists>state'. onToolResult reg message = reg(sid \<mapsto> state') \<and>
               map_of (timers state') (timer pending) = None \<and>
               map_of (pendingTools state') a = None \<and>
               log state' = log state @
                 [if truthy (jprop message ''ok'')
                  then Resolved (timer pending) (jprop message ''data'')
                  else Rejected (timer pending) (toErrorCode (jprop message ''error''))] \<and>
               count_list (settled (log state')) (timer pending) = 1 \<and>
               (\<forall>c \<in> set ToolResultError. jprop message ''error'' = Some (JStr c) \<longrightarrow>
                  toErrorCode (jprop message ''error'') = c) \<and>
               (\<forall>message'. as_string (jprop message' ''sessionId'') = Some sid \<and>
                            as_string (jprop message' ''actionId'') = Some a \<longrightarrow>
                  onToolResult (onToolResult reg message) message' =
                  onToolResult reg message)))"
proof (intro conjI allI impI)
  assume "map_of (pendingTools state) a = None"
  with assms show "onToolResult reg message = reg"
    by (simp add: onToolResult_at settle_absent map_upd_triv)
next
  fix pending assume hit: "map_of (pendingTools state) a = Some pending"
  let ?e = "if truthy (jprop message ''ok'')
            then Resolved (timer pending) (jprop message ''data'')
            else Rejected (timer pending) (toErrorCode (jprop message ''error''))"
  let ?state' = "settle state message"
  have eq: "?state' = state\<lparr>timers := AList.delete (timer pending) (timers state),
              pendingTools := AList.delete a (pendingTools state), log := log state @ [?e]\<rparr>"
    by (rule settle_hit [OF assms(4) hit])
  from assms(2) hit obtain ms where armed: "map_of (timers state) (timer pending) = Some (a, ms)"
    unfolding broker_inv_iff by blast
  with assms(2) have fresh: "timer pending \<notin> set (settled (log state))"
    unfolding broker_inv_iff by blast
  have 1: "onToolResult reg message = reg(sid \<mapsto> ?state')"
    using assms by (simp add: onToolResult_at)
  have 2: "map_of (timers ?state') (timer pending) = None"
    by (simp add: eq delete_conv')
  have 3: "map_of (pendingTools ?state') a = None"
    by (simp add: eq delete_conv')
  have 4: "log ?state' = log state @ [?e]"
    by (simp add: eq)
  have 5: "count_list (settled (log ?state')) (timer pending) = 1"
    using fresh by (simp add: 4 settled_append count_list_0_iff)
  have 6: "\<forall>c \<in> set ToolResultError. jprop message ''error'' = Some (JStr c) \<longrightarrow>
             toErrorCode (jprop message ''error'') = c"
    by (auto simp: toErrorCode_known)
  have 7: "onToolResult (onToolResult reg message) message' = onToolResult reg message"
    if "as_string (jprop message' ''sessionId'') = Some sid \<and>
        as_string (jprop message' ''actionId'') = Some a" for message'
  proof -
    have a: "onToolResult (reg(sid \<mapsto> ?state')) message' =
            (reg(sid \<mapsto> ?state'))(sid \<mapsto> settle ?state' message')"
      using that by (intro onToolResult_at) simp_all
    have b: "settle ?state' message' = ?state'"
      using that 3 by (intro settle_absent [of _ a]) simp_all
    show ?thesis unfolding 1 a b by simp
  qed
  from 1 2 3 4 5 6 7
  show "\<exists>state'. onToolResult reg message = reg(sid \<mapsto> state') \<and>
               map_of (timers state') (timer pending) = None \<and>
               map_of (pendingTools state') a = None \<and>
               log state' = log state @ [?e] \<and>
               count_list (settled (log state')) (timer pending) = 1 \<and>
               (\<forall>c \<in> set ToolResultError. jprop message ''error'' = Some (JStr c) \<longrightarrow>
                  toErrorCode (jprop message ''error'') = c) \<and>
               (\<forall>message'. as_string (jprop message' ''sessionId'') = Some sid \<and>
                            as_string (jprop message' ''actionId'') = Some a \<longrightarrow>
                  onToolResult (onToolResult reg message) message' =
                  onToolResult reg message)"
    by blast
qed

theorem onToolResult_settles_once_witness:
  "\<exists>state'. onToolResult [''session-1'' \<mapsto> session_find_pending] tool_result_not_found =
             [''session-1'' \<mapsto> state'] \<and>
           map_of (pendingTools state') ''call-1'' = None \<and>
           log state' = log session_find_pending @ [Rejected 0 ''NOT_FOUND''] \<and>
           count_list (settled (log state')) 0 = 1"
proof -
  have 1: "[''session-1'' \<mapsto> session_find_pending] ''session-1'' = Some session_find_pending"
    by simp
  have 2: "broker_inv session_find_pending"
    by (simp add: broker_inv_def session_find_pending_def armed_for_def)
  have 3: "as_string (jprop tool_result_not_found ''sessionId'') = Some ''session-1''"
    by (simp add: tool_result_not_found_def jprop_def)
  have 4: "as_string (jprop tool_result_not_found ''actionId'') = Some ''call-1''"
    by (simp add: tool_result_not_found_def jprop_def)
  have 5: "map_of (pendingTools session_find_pending) ''call-1'' =
             Some \<lparr>timer = 0, pending_tool = browser_find\<rparr>"
    by (simp add: session_find_pending_def)
  have 6: "\<not> truthy (jprop tool_result_not_found ''ok'')"
    "toErrorCode (jprop tool_result_not_found ''error'') = ''NOT_FOUND''"
    by (simp_all add: tool_result_not_found_def jprop_def toErrorCode_def)
  from onToolResult_settles_once [of "[''session-1'' \<mapsto> session_find_pending]" "''session-1''"
      session_find_pending tool_result_not_found "''call-1''", OF 1 2 3 4] 5 6 show ?thesis
    by auto
qed

lemma settle_other:
  assumes inv: "broker_inv s" and armed: "map_of (timers s) h = Some (a, d)"
    and other: "as_string (jprop m ''actionId'') \<noteq> Some a"
  shows "map_of (timers (settle s m)) h = Some (a, d)"
    and "map_of (pendingTools (settle s m)) a = map_of (pendingTools s) a"
proof -
  show "map_of (timers (settle s m)) h = Some (a, d)"
  proof (cases "as_string (jprop m ''actionId'')")
    case None
    then show ?thesis using armed by (simp add: settle_def)
  next
    case (Some a')
    show ?thesis
    proof (cases "map_of (pendingTools s) a'")
      case None
      with Some armed show ?thesis by (simp add: settle_absent)
    next
      case (Some p)
      from inv Some obtain d' where "map_of (timers s) (timer p) = Some (a', d')"
        unfolding broker_inv_iff by blast
      with armed other \<open>as_string (jprop m ''actionId'') = Some a'\<close> have "timer p \<noteq> h" by auto
      with armed show ?thesis
        by (simp add: settle_hit [OF \<open>as_string (jprop m ''actionId'') = Some a'\<close> Some] delete_conv')
    qed
  qed
  show "map_of (pendingTools (settle s m)) a = map_of (pendingTools s) a"
  proof (cases "as_string (jprop m ''actionId'')")
    case None
    then show ?thesis by (simp add: settle_def)
  next
    case (Some a')
    with other have "a' \<noteq> a" by simp
    then show ?thesis
      using Some by (cases "map_of (pendingTools s) a'") (simp_all add: settle_absent settle_hit delete_conv')
  qed
qed

lemma settle_others:
  assumes "broker_inv s" and "map_of (timers s) h = Some (a, d)"
    and "\<forall>m \<in> set ms. as_string (jprop m ''actionId'') \<noteq> Some a"
  shows "broker_inv (foldl settle s ms) \<and>
         map_of (timers (foldl settle s ms)) h = Some (a, d) \<and>
         map_of (pendingTools (foldl settle s ms)) a = map_of (pendingTools s) a"
  using assms
proof (induction ms arbitrary: s)
  case Nil
  then show ?case by simp
next
  case (Cons m ms)
  from Cons.prems have 1: "broker_inv (settle s m)" by (simp add: broker_inv_settle)
  from Cons.prems have 2: "map_of (timers (settle s m)) h = Some (a, d)"
    by (intro settle_other) simp_all
  from Cons.prems have 3: "map_of (pendingTools (settle s m)) a = map_of (pendingTools s) a"
    by (intro settle_other [of s h a d]) simp_all
  from Cons.IH [OF 1 2] Cons.prems(3) 3 show ?case by simp
qed

lemma toolTimeoutMs_values:
  "toolTimeoutMs browser_find = 5000" "toolTimeoutMs browser_highlight = 5000"
  "toolTimeoutMs browser_navigate = 30000"
  "toolTimeoutMs browser_click = 60000" "toolTimeoutMs browser_type = 60000"
  by (simp_all add: toolTimeoutMs_def TOOL_TIMEOUT_MS_def TOOL_TIMEOUT_NAVIGATE_MS_def
      TOOL_TIMEOUT_ACTION_MS_def)

text \<open>
  C5: a request dispatched on an open socket is recorded as pending with a timer whose delay
  is the deadline of its tool. While only results for other action ids arrive it stays
  pending, and when the timer fires the entry is removed and the promise is rejected with
  \<open>TIMEOUT\<close>, settled exactly once; a result arriving later for the same action id changes
  nothing. The deadline is 5 seconds for find and highlight, 30 seconds for navigate and 60
  seconds for click and type.
\<close>

theorem requestToolRoundTrip_timeout:
  assumes "ws_open (ws state)" and "broker_inv state"
    and "\<forall>m \<in> set ms. as_string (jprop m ''actionId'') \<noteq> Some a"
  shows "\<exists>state1 h.
           requestToolRoundTrip state a tool params uiLabel = Inr (state1, h) \<and>
           map_of (pendingTools state1) a = Some \<lparr>timer = h, pending_tool = tool\<rparr> \<and>
           map_of (timers state1) h = Some (a, toolTimeoutMs tool) \<and>
           log state1 = log state @ [Send (ToolRequest a tool params uiLabel (toolTimeoutMs tool))] \<and>
           (let state2 = foldl settle state1 ms; state3 = timerFired state2 h
            in map_of (pendingTools state2) a = Some \<lparr>timer = h, pending_tool = tool\<rparr> \<and>
               map_of (pendingTools state3) a = None \<and>
               log state3 = log state2 @ [Rejected h ''TIMEOUT''] \<and>
               count_list (settled (log state3)) h = 1 \<and>
               (\<forall>m. as_string (jprop m ''actionId'') = Some a \<longrightarrow> settle state3 m = state3)) \<and>
           toolTimeoutMs browser_find = 5000 \<and> toolTimeoutMs browser_highlight = 5000 \<and>
           toolTimeoutMs browser_navigate = 30000 \<and>
           toolTimeoutMs browser_click = 60000 \<and> toolTimeoutMs browser_type = 60000"
proof -
  let ?h = "nextTimer state"
  let ?state1 = "state\<lparr>nextTimer := Suc ?h,
            timers := AList.update ?h (a, toolTimeoutMs tool) (timers state),
            pendingTools := AList.update a \<lparr>timer = ?h, pending_tool = tool\<rparr> (pendingTools state),
            log := log state @ [Send (ToolRequest a tool params uiLabel (toolTimeoutMs tool))]\<rparr>"
  have r: "requestToolRoundTrip state a tool params uiLabel = Inr (?state1, ?h)"
    using assms(1) by (rule requestToolRoundTrip_open)
  have inv1: "broker_inv ?state1"
    using assms(2) by (rule broker_inv_issue)
  have p1: "map_of (pendingTools ?state1) a = Some \<lparr>timer = ?h, pending_tool = tool\<rparr>"
    by (simp add: update_conv')
  have t1: "map_of (timers ?state1) ?h = Some (a, toolTimeoutMs tool)"
    by (simp add: update_conv')
  have l1: "log ?state1 = log state @ [Send (ToolRequest a tool params uiLabel (toolTimeoutMs tool))]"
    by simp
  let ?state2 = "foldl settle ?state1 ms"
  let ?state3 = "timerFired ?state2 ?h"
  from settle_others [OF inv1 t1 assms(3)]
  have inv2: "broker_inv ?state2" and t2: "map_of (timers ?state2) ?h = Some (a, toolTimeoutMs tool)"
    and p2: "map_of (pendingTools ?state2) a = Some \<lparr>timer = ?h, pending_tool = tool\<rparr>"
    using p1 by simp_all
  have f: "?state3 = ?state2\<lparr>timers := AList.delete ?h (timers ?state2),
                       pendingTools := AList.delete a (pendingTools ?state2),
                       log := log ?state2 @ [Rejected ?h ''TIMEOUT'']\<rparr>"
    using t2 by (rule timerFired_armed)
  from inv2 t2 have fresh: "?h \<notin> set (settled (log ?state2))"
    unfolding broker_inv_iff by blast
  have p3: "map_of (pendingTools ?state3) a = None"
    unfolding f by (simp add: delete_conv')
  have l3: "log ?state3 = log ?state2 @ [Rejected ?h ''TIMEOUT'']"
    unfolding f by simp
  have c3: "count_list (settled (log ?state3)) ?h = 1"
    unfolding l3 using fresh by (simp add: settled_append count_list_0_iff)
  have late: "\<forall>m. as_string (jprop m ''actionId'') = Some a \<longrightarrow> settle ?state3 m = ?state3"
    using p3 by (auto intro: settle_absent)
  show ?thesis
    using r p1 t1 l1 p2 p3 l3 c3 late toolTimeoutMs_values
    by (simp add: Let_def)
qed

theorem requestToolRoundTrip_timeout_witness:
  "\<exists>state1 h.
     requestToolRoundTrip session_find_pending ''call-2'' browser_click
       (JObj [(''selector'', JStr ''#go'')]) ''clicking #go'' = Inr (state1, h) \<and>
     map_of (timers state1) h = Some (''call-2'', 60000) \<and>
     map_of (pendingTools (timerFired (settle state1 tool_result_ok) h)) ''call-2'' = None \<and>
     log (timerFired (settle state1 tool_result_ok) h) =
       log (settle state1 tool_result_ok) @ [Rejected h ''TIMEOUT'']"
proof -
  have 1: "ws_open (ws session_find_pending)"
    by (simp add: session_find_pending_def)
  have 2: "broker_inv session_find_pending"
    by (simp add: broker_inv_def session_find_pending_def armed_for_def)
  have 3: "\<forall>m \<in> set [tool_result_ok]. as_string (jprop m ''actionId'') \<noteq> Some ''call-2''"
    by (simp add: tool_result_ok_def jprop_def)
  from requestToolRoundTrip_timeout [OF 1 2 3, of browser_click "JObj [(''selector'', JStr ''#go'')]"
      "''clicking #go''"]
  show ?thesis
    by (auto simp: Let_def toolTimeoutMs_values)
qed

section \<open>The single-candidate rule\<close>

lemma ensureSingle_cases:
  assumes "tool \<noteq> browser_find"
  shows "ensureSingleCandidateBeforeAction s tool =
     (if lastFindCandidates s = [] then Inl FIND_FIRST
      else if length (lastFindCandidates s) > 1 then Inl MUST_DISAMBIGUATE
      else Inr ())"
  using assms by (simp add: ensureSingleCandidateBeforeAction_def FIND_FIRST_def MUST_DISAMBIGUATE_def)

lemmas target_begin_defs = target_tools_def tool_begin_def browser_highlight_begin_def
  browser_click_begin_def browser_type_begin_def

lemma target_begin_none:
  "tool \<in> target_tools \<Longrightarrow> lastFindCandidates s = [] \<Longrightarrow>
   tool_begin s tool args toolCallId = (Threw FIND_FIRST, s)"
  by (auto simp: target_begin_defs ensureSingle_cases)

lemma target_begin_many:
  "tool \<in> target_tools \<Longrightarrow> length (lastFindCandidates s) > 1 \<Longrightarrow>
   tool_begin s tool args toolCallId = (Threw MUST_DISAMBIGUATE, s)"
  by (auto simp: target_begin_defs ensureSingle_cases)

lemma target_begin_one:
  "tool \<in> target_tools \<Longrightarrow> length (lastFindCandidates s) = 1 \<Longrightarrow> ws_open (ws s) \<Longrightarrow>
   trim (getStringArg args ''selector'') \<noteq> [] \<Longrightarrow>
   fst (tool_begin s tool args toolCallId) = Awaiting (nextTimer s)"
  by (auto simp: target_begin_defs ensureSingle_cases Let_def awaitRoundTrip_def
      requestToolRoundTrip_open)

lemma target_begin_request:
  assumes "tool \<in> target_tools" "length (lastFindCandidates s) = 1"
    "trim (getStringArg args ''selector'') \<noteq> []" "ws_open (ws s)"
  shows "\<exists>params label. last (log (snd (tool_begin s tool args toolCallId))) =
           Send (ToolRequest toolCallId tool params label (toolTimeoutMs tool))"
  using assms
  by (auto simp: target_tools_def tool_begin_def browser_highlight_begin_def browser_click_begin_def
      browser_type_begin_def ensureSingleCandidateBeforeAction_def Let_def awaitRoundTrip_def
      requestToolRoundTrip_open)

text \<open>
  C6: a handler of \<open>browser_highlight\<close>, \<open>browser_click\<close> or \<open>browser_type\<close> throws the
  find-first error when the candidate list is empty and the must-disambiguate error when it
  has more than one member, and in both cases leaves the session as it was, so nothing is
  sent. It changes the session, and reaches the round trip, only when the list has exactly
  one member; with one member, an open socket and a selector, it sends the \<open>tool_request\<close>.
\<close>

theorem single_candidate_gate:
  assumes "tool \<in> target_tools"
  shows "(lastFindCandidates state = [] \<longrightarrow>
            tool_begin state tool args toolCallId = (Threw FIND_FIRST, state)) \<and>
         (length (lastFindCandidates state) > 1 \<longrightarrow>
            tool_begin state tool args toolCallId = (Threw MUST_DISAMBIGUATE, state)) \<and>
         (snd (tool_begin state tool args toolCallId) \<noteq> state \<longrightarrow>
            length (lastFindCandidates state) = 1) \<and>
         (\<forall>h. fst (tool_begin state tool args toolCallId) = Awaiting h \<longrightarrow>
            length (lastFindCandidates state) = 1) \<and>
         (length (lastFindCandidates state) = 1 \<and> ws_open (ws state) \<and>
          trim (getStringArg args ''selector'') \<noteq> [] \<longrightarrow>
            fst (tool_begin state tool args toolCallId) = Awaiting (nextTimer state) \<and>
            (\<exists>params label. last (log (snd (tool_begin state tool args toolCallId))) =
               Send (ToolRequest toolCallId tool params label (toolTimeoutMs tool))))"
proof -
  have 1: "lastFindCandidates state = [] \<longrightarrow>
            tool_begin state tool args toolCallId = (Threw FIND_FIRST, state)"
    using assms by (simp add: target_begin_none)
  have 2: "length (lastFindCandidates state) > 1 \<longrightarrow>
            tool_begin state tool args toolCallId = (Threw MUST_DISAMBIGUATE, state)"
    using assms by (simp add: target_begin_many)
  have 3: "snd (tool_begin state tool args toolCallId) \<noteq> state \<longrightarrow>
            length (lastFindCandidates state) = 1"
    using 1 2 by (cases "lastFindCandidates state") (auto simp: Suc_lessI)
  have 4: "\<forall>h. fst (tool_begin state tool args toolCallId) = Awaiting h \<longrightarrow>
            length (lastFindCandidates state) = 1"
    using 1 2 by (cases "lastFindCandidates state") (auto simp: Suc_lessI)
  have 5: "length (lastFindCandidates state) = 1 \<and> ws_open (ws state) \<and>
          trim (getStringArg args ''selector'') \<noteq> [] \<longrightarrow>
            fst (tool_begin state tool args toolCallId) = Awaiting (nextTimer state) \<and>
            (\<exists>params label. last (log (snd (tool_begin state tool args toolCallId))) =
               Send (ToolRequest toolCallId tool params label (toolTimeoutMs tool)))"
    using assms by (simp add: target_begin_one target_begin_request)
  from 1 2 3 4 5 show ?thesis by blast
qed

theorem single_candidate_gate_witness:
  "tool_begin session_two_candidates browser_click click_args ''call-2'' =
     (Threw MUST_DISAMBIGUATE, session_two_candidates) \<and>
   fst (tool_begin (session_two_candidates\<lparr>lastFindCandidates := [hd two_candidates]\<rparr>)
          browser_click click_args ''call-2'') = Awaiting 1"
proof -
  have 1: "browser_click \<in> target_tools" by (simp add: target_tools_def)
  have 2: "length (lastFindCandidates session_two_candidates) > 1"
    by (simp add: session_two_candidates_def two_candidates_def)
  let ?one = "session_two_candidates\<lparr>lastFindCandidates := [hd two_candidates]\<rparr>"
  have 3: "length (lastFindCandidates ?one) = 1 \<and> ws_open (ws ?one) \<and>
           trim (getStringArg click_args ''selector'') \<noteq> []" "nextTimer ?one = 1"
    by (simp_all add: session_two_candidates_def session_find_pending_def click_args_def
        getStringArg_def jprop_def trim_def isSpace_def)
  from single_candidate_gate [OF 1, of session_two_candidates click_args "''call-2''"]
       single_candidate_gate [OF 1, of ?one click_args "''call-2''"] 2 3
  show ?thesis by simp
qed

lemma settle_candidates [simp]: "lastFindCandidates (settle s m) = lastFindCandidates s"
  by (simp add: settle_def clearTimeout_def Let_def split: option.splits)

lemma timerFired_candidates [simp]: "lastFindCandidates (timerFired s h) = lastFindCandidates s"
  by (simp add: timerFired_def split: option.splits)

lemma cancelRun_begin_candidates [simp]:
  "lastFindCandidates (cancelRun_begin s) = lastFindCandidates s"
  by (cases "run s") (simp_all add: cancelRun_begin_idle cancelRun_begin_fields)

lemma dispatch_candidates [simp]:
  "lastFindCandidates (snd (awaitRoundTrip s (requestToolRoundTrip s a tool params label))) =
   lastFindCandidates s"
  by (cases "ws_open (ws s)")
     (simp_all add: awaitRoundTrip_def requestToolRoundTrip_open requestToolRoundTrip_closed)

lemma tool_begin_keeps_empty:
  "lastFindCandidates s = [] \<Longrightarrow> lastFindCandidates (snd (tool_begin s tool args toolCallId)) = []"
  by (cases tool)
     (simp_all add: tool_begin_def browser_find_begin_def browser_navigate_begin_def
       browser_select_candidate_handler_def browser_highlight_begin_def browser_click_begin_def
       browser_type_begin_def ensureSingleCandidateBeforeAction_def Let_def)

lemma step_keeps_empty:
  "lastFindCandidates s = [] \<Longrightarrow> \<not> repopulates e \<Longrightarrow> lastFindCandidates (step s e) = []"
  by (cases e)
     (simp_all add: tool_begin_keeps_empty browser_navigate_resume_def browser_find_resume_def
       on_user_approval_def keepAlive_def on_message_delta_def on_tool_execution_start_def
       on_tool_execution_complete_def handleUserMessage_begin_def extractDomainHint_throws_def
       handleUserMessage_done_def handleUserMessage_failed_def sendDelta_def sendFinal_def Let_def
       split: option.splits)

lemma steps_keep_empty:
  "lastFindCandidates s = [] \<Longrightarrow> \<forall>e \<in> set es. \<not> repopulates e \<Longrightarrow>
   lastFindCandidates (steps_from s es) = []"
  unfolding steps_from_def by (induction es arbitrary: s) (simp_all add: step_keeps_empty)

lemma browser_navigate_begin_outcome:
  "fst (browser_navigate_begin s args toolCallId) \<noteq> Returned v"
  by (cases "ws_open (ws (appendStep s (''Navigating to '' @ trim (getStringArg args ''url''))))")
     (simp_all add: browser_navigate_begin_def Let_def awaitRoundTrip_def
       requestToolRoundTrip_open requestToolRoundTrip_closed)

lemma browser_navigate_call_returned:
  assumes "fst (browser_navigate_call s args toolCallId during) = Returned v"
  shows "\<exists>h s1 rawResult.
           browser_navigate_begin s args toolCallId = (Awaiting h, s1) \<and>
           settlement_of h (log (steps_from s1 during)) = Some (Inr rawResult) \<and>
           browser_navigate_call s args toolCallId during =
             (Returned v, (steps_from s1 during)\<lparr>lastFindCandidates := []\<rparr>)"
proof -
  obtain outcome s1 where b: "browser_navigate_begin s args toolCallId = (outcome, s1)"
    by (cases "browser_navigate_begin s args toolCallId")
  show ?thesis
  proof (cases outcome)
    case (Threw e)
    with b assms show ?thesis by (simp add: browser_navigate_call_def)
  next
    case (Returned w)
    with b browser_navigate_begin_outcome [of s args toolCallId w] show ?thesis by simp
  next
    case (Awaiting h)
    show ?thesis
    proof (cases "settlement_of h (log (steps_from s1 during))")
      case None
      with b Awaiting assms show ?thesis by (simp add: browser_navigate_call_def Let_def)
    next
      case (Some r)
      show ?thesis
      proof (cases r)
        case (Inl e)
        with b Awaiting Some assms show ?thesis by (simp add: browser_navigate_call_def Let_def)
      next
        case (Inr rawResult)
        with b Awaiting Some assms show ?thesis
          by (simp add: browser_navigate_call_def browser_navigate_resume_def Let_def)
      qed
    qed
  qed
qed

text \<open>
  C10, as the claim states it, fails: a \<open>browser_find\<close> that was called before the navigation
  and is still waiting for its result when the navigation succeeds puts its candidates into
  the list when it resumes. In the session that waits for the find \<open>call-1\<close>, the navigation
  \<open>call-2\<close> succeeds and leaves the list empty; then the result of \<open>call-1\<close> arrives with one
  candidate, and a click passes the single-candidate check and is sent to the extension,
  though \<open>browser_find\<close> has not been called since the navigation.
\<close>

theorem find_before_navigate_counterexample:
  "fst (browser_navigate_call session_find_pending navigate_args ''call-2''
          [ToolResultReceived navigate_result_ok]) =
     Returned (JObj [(''ok'', JBool True), (''url'', JStr ''https://example.com/'')]) \<and>
   lastFindCandidates (snd (browser_navigate_call session_find_pending navigate_args ''call-2''
          [ToolResultReceived navigate_result_ok])) = [] \<and>
   \<not> list_ex find_called late_find_events \<and>
   settlement_of 0 (log (steps_from (snd (browser_navigate_call session_find_pending navigate_args
          ''call-2'' [ToolResultReceived navigate_result_ok])) late_find_events)) =
     Some (Inr (Some one_candidate_data)) \<and>
   fst (tool_begin (steps_from (snd (browser_navigate_call session_find_pending navigate_args
          ''call-2'' [ToolResultReceived navigate_result_ok])) late_find_events)
          browser_click click_args ''call-3'') = Awaiting 2"
  by (simp add: browser_navigate_call_def browser_navigate_begin_def browser_navigate_resume_def
      navigate_args_def navigate_result_ok_def late_find_events_def find_result_late_def
      one_candidate_data_def click_args_def session_find_pending_def steps_from_def
      getStringArg_def jprop_def trim_def isSpace_def appendStep_def sendStep_def send_def
      awaitRoundTrip_def requestToolRoundTrip_def toolTimeoutMs_def TOOL_TIMEOUT_MS_def
      settle_def clearTimeout_def browser_find_resume_def parseFindResult_def
      candidateFromUnknown_def List.map_filter_def string_of_nat.simps digit_char_def
      tool_begin_def browser_click_begin_def ensureSingleCandidateBeforeAction_def Let_def)

text \<open>
  C10, amended: a call of the \<open>browser_navigate\<close> handler returns a value to the driver only
  after it has sent its request and waited, and the promise of that round trip has been
  resolved; the handler then sets the candidate list of the session to empty before it
  returns. The list stays empty under every event of the session other than the
  continuation of a \<open>browser_find\<close> handler whose result holds at least one candidate,
  whether that find was called after the navigation or before it, and while the list is
  empty every highlight, click or type fails the single-candidate check with the find-first
  error and changes nothing. The continuation of a find handler sets the list to the
  candidates of its result.
\<close>

theorem browser_navigate_clears_candidates:
  assumes "fst (browser_navigate_call state args toolCallId during) = Returned result"
    and "\<forall>e \<in> set es. \<not> repopulates e" and "tool \<in> target_tools"
  shows "(\<exists>h state1 rawResult.
            browser_navigate_begin state args toolCallId = (Awaiting h, state1) \<and>
            settlement_of h (log (steps_from state1 during)) = Some (Inr rawResult)) \<and>
         lastFindCandidates (snd (browser_navigate_call state args toolCallId during)) = [] \<and>
         (let state' = steps_from (snd (browser_navigate_call state args toolCallId during)) es
          in lastFindCandidates state' = [] \<and>
             tool_begin state' tool args' toolCallId' = (Threw FIND_FIRST, state')) \<and>
         lastFindCandidates (step state2 (FindResumed found)) = parseFindResult found"
proof -
  let ?s1 = "snd (browser_navigate_call state args toolCallId during)"
  from browser_navigate_call_returned [OF assms(1)]
  obtain h state1 rawResult where
    b: "browser_navigate_begin state args toolCallId = (Awaiting h, state1)"
    and r: "settlement_of h (log (steps_from state1 during)) = Some (Inr rawResult)"
    and c: "browser_navigate_call state args toolCallId during =
              (Returned result, (steps_from state1 during)\<lparr>lastFindCandidates := []\<rparr>)"
    by blast
  have 0: "\<exists>h state1 rawResult.
            browser_navigate_begin state args toolCallId = (Awaiting h, state1) \<and>
            settlement_of h (log (steps_from state1 during)) = Some (Inr rawResult)"
    using b r by blast
  have 1: "lastFindCandidates ?s1 = []"
    by (simp add: c)
  have 2: "lastFindCandidates (steps_from ?s1 es) = []"
    using 1 assms(2) by (rule steps_keep_empty)
  have 3: "tool_begin (steps_from ?s1 es) tool args' toolCallId' = (Threw FIND_FIRST, steps_from ?s1 es)"
    using assms(3) 2 by (rule target_begin_none)
  have 4: "lastFindCandidates (step state2 (FindResumed found)) = parseFindResult found"
    by (simp add: browser_find_resume_def Let_def)
  from 0 1 2 3 4 show ?thesis by (simp add: Let_def)
qed

theorem browser_navigate_clears_candidates_witness:
  "fst (browser_navigate_call session_two_candidates navigate_args ''call-2''
          [KeepAliveTick, ToolResultReceived navigate_result_ok]) =
     Returned (JObj [(''ok'', JBool True), (''url'', JStr ''https://example.com/'')]) \<and>
   (let state' = steps_from (snd (browser_navigate_call session_two_candidates navigate_args ''call-2''
                                    [KeepAliveTick, ToolResultReceived navigate_result_ok]))
                   [KeepAliveTick,
                    ToolCall browser_select_candidate (JObj [(''id'', JStr ''cand-1'')]) ''call-3'',
                    FindResumed (Some (JObj [(''candidates'', JArr [])]))]
    in lastFindCandidates state' = [] \<and>
       tool_begin state' browser_click click_args ''call-4'' = (Threw FIND_FIRST, state'))"
proof -
  have 1: "fst (browser_navigate_call session_two_candidates navigate_args ''call-2''
                  [KeepAliveTick, ToolResultReceived navigate_result_ok]) =
             Returned (JObj [(''ok'', JBool True), (''url'', JStr ''https://example.com/'')])"
    by (simp add: browser_navigate_call_def browser_navigate_begin_def browser_navigate_resume_def
        navigate_args_def navigate_result_ok_def session_two_candidates_def
        session_find_pending_def steps_from_def keepAlive_def sendDelta_def
        getStringArg_def jprop_def trim_def isSpace_def appendStep_def sendStep_def send_def
        awaitRoundTrip_def requestToolRoundTrip_def toolTimeoutMs_def TOOL_TIMEOUT_MS_def
        settle_def clearTimeout_def Let_def)
  have 2: "\<forall>e \<in> set [KeepAliveTick,
             ToolCall browser_select_candidate (JObj [(''id'', JStr ''cand-1'')]) ''call-3'',
             FindResumed (Some (JObj [(''candidates'', JArr [])]))].
             \<not> repopulates e"
    by (simp add: parseFindResult_def jprop_def)
  have 3: "browser_click \<in> target_tools" by (simp add: target_tools_def)
  from browser_navigate_clears_candidates [OF 1 2 3, of click_args "''call-4''"] 1
  show ?thesis by (simp add: Let_def)
qed

section \<open>Cancellation and the final answer of a turn\<close>

lemma finals_append: "finals (s\<lparr>log := log s @ es\<rparr>) = finals s + length (filter is_final es)"
  by (simp add: finals_def)

lemma send_flags [simp]: "run_flags (send s m) = run_flags s"
  by (simp add: run_flags_def)

lemma send_finals: "finals (send s m) = finals s + (if ws_open (ws s) \<and> is_final (Send m) then 1 else 0)"
  by (simp add: send_def finals_def)

lemma finals_run_update [simp]: "finals (s\<lparr>run := r\<rparr>) = finals s"
  by (simp add: finals_def)

lemma appendStep_flags [simp]: "run_flags (appendStep s t) = run_flags s"
  by (simp add: appendStep_def sendStep_def run_flags_def split: option.splits)

lemma appendStep_finals [simp]: "finals (appendStep s t) = finals s"
  by (simp add: appendStep_def sendStep_def send_finals split: option.splits)

lemma sendDelta_quiet [simp]:
  "run_flags (sendDelta s d) = run_flags s" "finals (sendDelta s d) = finals s"
  by (simp_all add: sendDelta_def send_finals)

lemma dispatch_quiet [simp]:
  "run_flags (snd (awaitRoundTrip s (requestToolRoundTrip s a tool params label))) = run_flags s"
  "finals (snd (awaitRoundTrip s (requestToolRoundTrip s a tool params label))) = finals s"
  by (cases "ws_open (ws s)";
      simp add: awaitRoundTrip_def requestToolRoundTrip_open requestToolRoundTrip_closed
        run_flags_def finals_def)+

lemma candidates_update_quiet [simp]:
  "run_flags (s\<lparr>lastFindCandidates := c\<rparr>) = run_flags s"
  "finals (s\<lparr>lastFindCandidates := c\<rparr>) = finals s"
  by (simp_all add: run_flags_def finals_def)


lemma settle_quiet [simp]:
  "run_flags (settle s m) = run_flags s" "finals (settle s m) = finals s"
  by (simp_all add: settle_def clearTimeout_def Let_def run_flags_def finals_def split: option.splits)

lemma timerFired_quiet [simp]:
  "run_flags (timerFired s h) = run_flags s" "finals (timerFired s h) = finals s"
  by (simp_all add: timerFired_def run_flags_def finals_def split: option.splits)

















text \<open>
  Two ways in which the code leaves the path the properties below follow. The continuation
  of \<open>cancelRun\<close> reads the run without a check: when the turn has ended while the driver
  was aborting, it throws, and the turn has sent no final answer at all. And a
  \<open>user_message\<close> whose \<open>text\<close> is not a string makes \<open>handleUserMessage\<close> throw outside its
  \<open>try\<close> block: the queue answers with a failure, the run stays installed, and a cancel that
  follows sends a second final answer.
\<close>

lemma cancel_continuation_after_turn_end:
  "run (step (cancelRun_begin session_find_pending) (TurnFailed ''aborted'')) = None \<and>
   fst (cancelRun_resume (step (cancelRun_begin session_find_pending) (TurnFailed ''aborted''))) =
     Some ''TypeError'' \<and>
   filter is_final
     (log (steps_from session_find_pending [CancelReceived, TurnFailed ''aborted'', CancelResumed])) = []"
  by (simp add: steps_from_def session_find_pending_def cancelRun_begin_def cancelRun_resume_def
      handleUserMessage_failed_def clearTimeout_def sendFinal_def send_def Let_def)

lemma turn_without_text_two_finals:
  "filter is_final
     (log (steps_from (createSessionState ''session-1'' ''secret'' socket0)
             [TurnBegin None, CancelReceived, CancelResumed])) =
   [Send (AssistantFinal ''Failed: TypeError''), Send (AssistantFinal ''Cancelled by user.'')]"
  by (simp add: steps_from_def createSessionState_def socket0_def handleUserMessage_begin_def
      extractDomainHint_throws_def cancelRun_begin_def cancelRun_resume_def appendStep_def
      sendStep_def sendFinal_def send_def Let_def)




section \<open>The protocol router\<close>

text \<open>
  C9, as the claim states it, fails: an envelope that is not well-formed JSON, or that lacks
  the token, is dropped by the listener and the channel is left open; nothing is closed.
\<close>

theorem on_message_malformed_counterexample:
  "on_message backend0 socket0 None = (Dropped, backend0) \<and>
   on_message backend0 socket0 (Some envelope_without_token) = (Dropped, backend0) \<and>
   closes backend0 = []"
  by (simp add: on_message_def normalizeMessage_def envelope_without_token_def jprop_def
      backend0_def)

lemma normalizeMessage_None_iff:
  "normalizeMessage parsed = None \<longleftrightarrow>
     parsed = None \<or> \<not> is_object parsed \<or>
     (\<exists>v. parsed = Some v \<and>
        (as_string (jprop v ''sessionId'') = None \<or> as_string (jprop v ''token'') = None \<or>
         as_string (jprop v ''type'') = None))"
  by (cases parsed) (auto simp: normalizeMessage_def)

lemma normalizeMessage_Some:
  "normalizeMessage parsed = Some m \<Longrightarrow>
     parsed = Some m \<and> (\<exists>sid tok ty. as_string (jprop m ''sessionId'') = Some sid \<and>
        as_string (jprop m ''token'') = Some tok \<and> as_string (jprop m ''type'') = Some ty)"
  by (cases parsed) (auto simp: normalizeMessage_def split: if_splits)

lemma routeMessage_handled:
  assumes "routeMessage b socket m = (Handled k, b')"
  shows "str_of (jprop m ''token'') = pairingToken b \<and> closes b' = closes b"
  using assms
  by (auto simp: routeMessage_def Let_def split: if_splits option.splits)

text \<open>
  C9, amended: an inbound envelope that is not well-formed JSON, is not an object, or lacks a
  string \<open>type\<close>, \<open>sessionId\<close> or \<open>token\<close> is dropped: no case of the router runs, the backend is
  unchanged and the channel stays open. A well-formed envelope whose token is not the shared
  secret reaches no case of the router either, and the channel it came on is closed with
  code 4001. A case of the router runs only for a well-formed envelope carrying the shared
  secret, and then nothing is closed.
\<close>

theorem on_message_rejects:
  "(normalizeMessage parsed = None \<longleftrightarrow>
      parsed = None \<or> \<not> is_object parsed \<or>
      (\<exists>v. parsed = Some v \<and>
         (as_string (jprop v ''sessionId'') = None \<or> as_string (jprop v ''token'') = None \<or>
          as_string (jprop v ''type'') = None))) \<and>
   (normalizeMessage parsed = None \<longrightarrow> on_message b socket parsed = (Dropped, b)) \<and>
   (\<forall>m. normalizeMessage parsed = Some m \<and> as_string (jprop m ''token'') \<noteq> Some (pairingToken b) \<longrightarrow>
        on_message b socket parsed =
          (InvalidToken, b\<lparr>closes := closes b @ [(ws_id socket, 4001, ''invalid token'')]\<rparr>)) \<and>
   (\<forall>k b'. on_message b socket parsed = (Handled k, b') \<longrightarrow>
        (\<exists>m. normalizeMessage parsed = Some m \<and>
             as_string (jprop m ''token'') = Some (pairingToken b)) \<and>
        closes b' = closes b)"
proof (intro conjI allI impI)
  show "normalizeMessage parsed = None \<longleftrightarrow>
      parsed = None \<or> \<not> is_object parsed \<or>
      (\<exists>v. parsed = Some v \<and>
         (as_string (jprop v ''sessionId'') = None \<or> as_string (jprop v ''token'') = None \<or>
          as_string (jprop v ''type'') = None))"
    by (rule normalizeMessage_None_iff)
next
  assume "normalizeMessage parsed = None"
  then show "on_message b socket parsed = (Dropped, b)"
    by (simp add: on_message_def)
next
  fix m
  assume a: "normalizeMessage parsed = Some m \<and> as_string (jprop m ''token'') \<noteq> Some (pairingToken b)"
  with normalizeMessage_Some [of parsed m] have "str_of (jprop m ''token'') \<noteq> pairingToken b"
    by (auto simp: str_of_def)
  with a show "on_message b socket parsed =
          (InvalidToken, b\<lparr>closes := closes b @ [(ws_id socket, 4001, ''invalid token'')]\<rparr>)"
    by (simp add: on_message_def routeMessage_def Let_def)
next
  fix k b'
  assume h: "on_message b socket parsed = (Handled k, b')"
  then obtain m where m: "normalizeMessage parsed = Some m" "routeMessage b socket m = (Handled k, b')"
    by (auto simp: on_message_def split: option.splits)
  from routeMessage_handled [OF m(2)] normalizeMessage_Some [OF m(1)]
  have "as_string (jprop m ''token'') = Some (pairingToken b)" "closes b' = closes b"
    by (auto simp: str_of_def)
  with m(1) show "\<exists>m. normalizeMessage parsed = Some m \<and>
             as_string (jprop m ''token'') = Some (pairingToken b)" by blast
  from \<open>closes b' = closes b\<close> show "closes b' = closes b" .
qed

theorem on_message_rejects_witness:
  "on_message backend0 socket0 (Some envelope_wrong_token) =
     (InvalidToken, backend0\<lparr>closes := [(1, 4001, ''invalid token'')]\<rparr>) \<and>
   on_message backend0 socket0 (Some envelope_without_token) = (Dropped, backend0)"
proof -
  have 1: "normalizeMessage (Some envelope_wrong_token) = Some envelope_wrong_token \<and>
           as_string (jprop envelope_wrong_token ''token'') \<noteq> Some (pairingToken backend0)"
    by (simp add: normalizeMessage_def envelope_wrong_token_def jprop_def backend0_def)
  have 2: "normalizeMessage (Some envelope_without_token) = None"
    by (simp add: normalizeMessage_def envelope_without_token_def jprop_def)
  from on_message_rejects [of "Some envelope_wrong_token" backend0 socket0]
       on_message_rejects [of "Some envelope_without_token" backend0 socket0] 1 2
  show ?thesis
    by (simp add: backend0_def socket0_def)
qed

section \<open>The denied approval\<close>

lemmas ext_eval = onToolRequest_def handleApproval_def updateHud_def sendToolMessageToActiveTab_def
  tabsSendMessage_def checkResponse_def isRestrictedUrl_def sendToBackend_def ext_emit_def
  jprop_def Let_def

lemma ext_awaiting_approval_eq:
  "ext_awaiting_approval =
     ext0\<lparr>pendingToolRequests := [(''a1'', click_submit_payment)],
          answers := tl (answers ext0),
          pendingAction := Some \<lparr>pa_actionId = ''a1'', pa_tool = ''browser_click'',
                                 pa_label = ''clicking Submit Payment''\<rparr>,
          ext_log := [TabsSendMessage (Hud ''Copilot: clicking Submit Payment...''), BroadcastState,
                      ApprovalNeeded \<lparr>pa_actionId = ''a1'', pa_tool = ''browser_click'',
                                      pa_label = ''clicking Submit Payment''\<rparr>]\<rparr>"
  by (simp add: ext_awaiting_approval_def ext0_def click_submit_payment_def request0_def ext_eval
      gate_eval)

text \<open>
  C2, as the claim states it, fails twice. When the approval is denied a command does go to
  the page: the HUD update \<open>Failed: PERMISSION_DENIED\<close>. And when the socket to the backend is
  not open, \<open>handleApproval\<close> throws at its first \<open>sendToBackend\<close>, so no \<open>tool_result\<close> is sent.
\<close>

theorem handleApproval_denied_counterexample:
  "TabsSendMessage (Hud ''Failed: PERMISSION_DENIED'') \<in>
     set (ext_log (snd (handleApproval ext_awaiting_approval ''a1'' False))) \<and>
   handleApproval ext_awaiting_offline ''a1'' False =
     (Some ''EXTENSION_NOT_READY'', ext_awaiting_offline) \<and>
   filter to_backend (ext_log ext_awaiting_offline) = []"
  by (simp add: ext_awaiting_offline_def ext_awaiting_approval_eq ext0_def ext_eval)

lemma tabsSendMessage_effect:
  "ext_log (snd (tabsSendMessage s c)) = ext_log s @ [TabsSendMessage c]"
  "socket_open (snd (tabsSendMessage s c)) = socket_open s"
  "pendingAction (snd (tabsSendMessage s c)) = pendingAction s"
  "pendingToolRequests (snd (tabsSendMessage s c)) = pendingToolRequests s"
  "autoRun (snd (tabsSendMessage s c)) = autoRun s"
  "canInject (snd (tabsSendMessage s c)) = canInject s"
  by (simp_all add: tabsSendMessage_def ext_emit_def split: list.splits)

lemma sendToolMessageToActiveTab_fields [simp]:
  "socket_open (snd (sendToolMessageToActiveTab s c)) = socket_open s"
  "pendingAction (snd (sendToolMessageToActiveTab s c)) = pendingAction s"
  "pendingToolRequests (snd (sendToolMessageToActiveTab s c)) = pendingToolRequests s"
  "autoRun (snd (sendToolMessageToActiveTab s c)) = autoRun s"
  by (simp_all add: sendToolMessageToActiveTab_def Let_def ext_emit_def tabsSendMessage_effect
      case_prod_unfold split: option.splits sum.splits)

lemma sendToolMessageToActiveTab_log:
  "\<exists>effs. ext_log (snd (sendToolMessageToActiveTab s c)) = ext_log s @ effs \<and>
          set effs \<subseteq> {TabsSendMessage c, ExecuteScript}"
  by (simp add: sendToolMessageToActiveTab_def Let_def ext_emit_def tabsSendMessage_effect
      case_prod_unfold split: option.splits sum.splits)

lemma updateHud_fields [simp]:
  "socket_open (updateHud s m) = socket_open s"
  "pendingAction (updateHud s m) = pendingAction s"
  "pendingToolRequests (updateHud s m) = pendingToolRequests s"
  "autoRun (updateHud s m) = autoRun s"
  by (simp_all add: updateHud_def)

lemma updateHud_log:
  "\<exists>effs. ext_log (updateHud s m) = ext_log s @ effs \<and>
          set effs \<subseteq> {TabsSendMessage (Hud m), ExecuteScript}"
  unfolding updateHud_def by (rule sendToolMessageToActiveTab_log)

lemma requiresManualApproval_cong:
  "autoRun s' = autoRun s \<Longrightarrow> requiresManualApproval s' r = requiresManualApproval s r"
  by (simp add: requiresManualApproval_def)

lemma handleApproval_False:
  assumes "map_of (pendingToolRequests state) actionId = Some request"
    and "socket_open state"
  shows "\<exists>state' effs.
           handleApproval state actionId False = (None, state') \<and>
           ext_log state' = ext_log state @ effs \<and>
           filter to_backend effs =
             [ToBackend (UserApprovalMsg actionId False),
              ToBackend (ToolResultErr actionId ''PERMISSION_DENIED'')] \<and>
           (\<forall>e \<in> set effs. \<not> tool_dispatch e) \<and>
           map_of (pendingToolRequests state') actionId = None \<and>
           pendingAction state' = None"
proof -
  let ?s2 = "state\<lparr>ext_log := ext_log state @ [ToBackend (UserApprovalMsg actionId False)],
                   pendingAction := None,
                   ext_log := ext_log state @ [ToBackend (UserApprovalMsg actionId False)] @ [BroadcastState]\<rparr>"
  let ?s3 = "?s2\<lparr>pendingToolRequests := AList.delete actionId (pendingToolRequests ?s2)\<rparr>"
  let ?s4 = "updateHud ?s3 ''Failed: PERMISSION_DENIED''"
  let ?s5 = "?s4\<lparr>ext_log := ext_log ?s4 @ [ToBackend (ToolResultErr actionId ''PERMISSION_DENIED'')]\<rparr>"
  have h: "handleApproval state actionId False = (None, ?s5)"
    using assms by (simp add: handleApproval_def sendToBackend_def ext_emit_def Let_def)
  from updateHud_log [of ?s3 "''Failed: PERMISSION_DENIED''"]
  obtain hud where hud: "ext_log ?s4 = ext_log ?s3 @ hud"
    "set hud \<subseteq> {TabsSendMessage (Hud ''Failed: PERMISSION_DENIED''), ExecuteScript}"
    by blast
  let ?effs = "[ToBackend (UserApprovalMsg actionId False), BroadcastState] @ hud @
               [ToBackend (ToolResultErr actionId ''PERMISSION_DENIED'')]"
  have l: "ext_log ?s5 = ext_log state @ ?effs"
    using hud(1) by simp
  have quiet: "\<forall>e \<in> set hud. \<not> tool_dispatch e \<and> \<not> to_backend e"
    using hud(2) by auto
  then have "filter to_backend hud = []"
    by (simp add: filter_empty_conv)
  then have f: "filter to_backend ?effs =
             [ToBackend (UserApprovalMsg actionId False),
              ToBackend (ToolResultErr actionId ''PERMISSION_DENIED'')]"
    by simp
  have d: "\<forall>e \<in> set ?effs. \<not> tool_dispatch e"
    using quiet by auto
  have p: "map_of (pendingToolRequests ?s5) actionId = None" "pendingAction ?s5 = None"
    by (simp_all add: delete_conv')
  from h l f d p show ?thesis by blast
qed

lemma onToolRequest_gated:
  assumes "requiresManualApproval state request"
  shows "\<exists>state1 effs.
           onToolRequest state request = (None, state1) \<and>
           ext_log state1 = ext_log state @ effs \<and>
           (\<forall>e \<in> set effs. \<not> tool_dispatch e \<and> \<not> to_backend e) \<and>
           map_of (pendingToolRequests state1) (req_actionId request) = Some request \<and>
           pendingAction state1 =
             Some \<lparr>pa_actionId = req_actionId request, pa_tool = req_tool request,
                   pa_label = ui_label request\<rparr>"
proof -
  let ?s1 = "state\<lparr>pendingToolRequests :=
                      AList.update (req_actionId request) request (pendingToolRequests state)\<rparr>"
  let ?m = "''Copilot: '' @ ui_label request @ ''...''"
  let ?s2 = "updateHud ?s1 ?m"
  let ?pa = "\<lparr>pa_actionId = req_actionId request, pa_tool = req_tool request,
               pa_label = ui_label request\<rparr>"
  let ?s4 = "?s2\<lparr>pendingAction := Some ?pa, ext_log := ext_log ?s2 @ [BroadcastState, ApprovalNeeded ?pa]\<rparr>"
  have "autoRun ?s2 = autoRun state" by simp
  from requiresManualApproval_cong [OF this] assms
  have gate: "requiresManualApproval ?s2 request" by simp
  have h: "onToolRequest state request = (None, ?s4)"
    using gate by (simp add: onToolRequest_def Let_def ext_emit_def)
  from updateHud_log [of ?s1 ?m]
  obtain hud where hud: "ext_log ?s2 = ext_log ?s1 @ hud"
    "set hud \<subseteq> {TabsSendMessage (Hud ?m), ExecuteScript}"
    by blast
  have l: "ext_log ?s4 = ext_log state @ (hud @ [BroadcastState, ApprovalNeeded ?pa])"
    using hud(1) by simp
  have q: "\<forall>e \<in> set (hud @ [BroadcastState, ApprovalNeeded ?pa]). \<not> tool_dispatch e \<and> \<not> to_backend e"
    using hud(2) by auto
  have p: "map_of (pendingToolRequests ?s4) (req_actionId request) = Some request"
    "pendingAction ?s4 = Some ?pa"
    by (simp_all add: update_conv')
  from h l q p show ?thesis by blast
qed

text \<open>
  C2, amended: a request that requires approval is stored and announced, and until the
  decision nothing but HUD updates goes to the page and nothing goes to the backend. When the
  approval of a stored request is denied and the socket to the backend is open, the extension
  sends the \<open>user_approval\<close> and then one \<open>tool_result\<close> with the error \<open>PERMISSION_DENIED\<close> for
  that action id, forgets the request and the pending action, and sends no tool command to
  the page: the commands it sends there are HUD updates.
\<close>

theorem denied_approval_path:
  "(requiresManualApproval state0 request \<longrightarrow>
      (\<exists>state1 effs.
         onToolRequest state0 request = (None, state1) \<and>
         ext_log state1 = ext_log state0 @ effs \<and>
         (\<forall>e \<in> set effs. \<not> tool_dispatch e \<and> \<not> to_backend e) \<and>
         map_of (pendingToolRequests state1) (req_actionId request) = Some request \<and>
         pendingAction state1 =
           Some \<lparr>pa_actionId = req_actionId request, pa_tool = req_tool request,
                 pa_label = ui_label request\<rparr>)) \<and>
   (map_of (pendingToolRequests state) actionId = Some request \<and> socket_open state \<longrightarrow>
      (\<exists>state' effs.
         handleApproval state actionId False = (None, state') \<and>
         ext_log state' = ext_log state @ effs \<and>
         filter to_backend effs =
           [ToBackend (UserApprovalMsg actionId False),
            ToBackend (ToolResultErr actionId ''PERMISSION_DENIED'')] \<and>
         (\<forall>e \<in> set effs. \<not> tool_dispatch e) \<and>
         map_of (pendingToolRequests state') actionId = None \<and>
         pendingAction state' = None))"
  using onToolRequest_gated [of state0 request] handleApproval_False [of state actionId request]
  by blast

lemma scenario_B_trace:
  "handleApproval ext_awaiting_approval ''a1'' False =
     (None, ext_awaiting_approval
        \<lparr>pendingAction := None, pendingToolRequests := [], answers := [],
         ext_log := ext_log ext_awaiting_approval @
           [ToBackend (UserApprovalMsg ''a1'' False), BroadcastState,
            TabsSendMessage (Hud ''Failed: PERMISSION_DENIED''),
            ToBackend (ToolResultErr ''a1'' ''PERMISSION_DENIED'')]\<rparr>)"
  by (simp add: ext_awaiting_approval_eq ext0_def ext_eval)

theorem denied_approval_path_witness:
  "requiresManualApproval ext0 click_submit_payment \<and>
   onToolRequest ext0 click_submit_payment = (None, ext_awaiting_approval) \<and>
   (\<exists>state' effs.
      handleApproval ext_awaiting_approval ''a1'' False = (None, state') \<and>
      ext_log state' = ext_log ext_awaiting_approval @ effs \<and>
      filter to_backend effs =
        [ToBackend (UserApprovalMsg ''a1'' False),
         ToBackend (ToolResultErr ''a1'' ''PERMISSION_DENIED'')] \<and>
      (\<forall>e \<in> set effs. \<not> tool_dispatch e))"
proof -
  have 1: "requiresManualApproval ext0 click_submit_payment"
    by (simp add: ext0_def click_submit_payment_def request0_def gate_eval)
  have 2: "map_of (pendingToolRequests ext_awaiting_approval) ''a1'' = Some click_submit_payment \<and>
           socket_open ext_awaiting_approval"
    by (simp add: ext_awaiting_approval_eq ext0_def)
  from denied_approval_path [of ext0 click_submit_payment ext_awaiting_approval "''a1''"] 1 2
  have "\<exists>state1. onToolRequest ext0 click_submit_payment = (None, state1)"
    and 3: "\<exists>state' effs.
      handleApproval ext_awaiting_approval ''a1'' False = (None, state') \<and>
      ext_log state' = ext_log ext_awaiting_approval @ effs \<and>
      filter to_backend effs =
        [ToBackend (UserApprovalMsg ''a1'' False),
         ToBackend (ToolResultErr ''a1'' ''PERMISSION_DENIED'')] \<and>
      (\<forall>e \<in> set effs. \<not> tool_dispatch e)"
    by blast+
  then have "onToolRequest ext0 click_submit_payment = (None, ext_awaiting_approval)"
    by (auto simp: ext_awaiting_approval_def)
  with 1 3 show ?thesis by blast
qed

section \<open>Selector synthesis and resolution\<close>

lemma ancestorWalk_unique_or_capped:
  "isUniqueSelector doc (ancestorWalk doc tag up segments) \<or>
   ancestorWalk doc tag up segments = joined_or_tag (cappedPath doc up segments) tag"
proof (induction up arbitrary: segments)
  case Nil
  then show ?case by simp
next
  case (Cons n up)
  show ?case
  proof (cases "length segments < 5")
    case False
    then show ?thesis by simp
  next
    case True
    let ?current = "rev (n # up)"
    let ?tag = "case node_at doc ?current of None \<Rightarrow> [] | Some e \<Rightarrow> tagName (info e)"
    let ?segments = "(?tag, nth_of_type doc ?current) # segments"
    show ?thesis
    proof (cases "isUniqueSelector doc (NthPath ?segments)")
      case unique: True
      with True have "ancestorWalk doc tag (n # up) segments = NthPath ?segments"
        by (simp add: Let_def)
      with unique show ?thesis by simp
    next
      case False
      with True have "ancestorWalk doc tag (n # up) segments = ancestorWalk doc tag up ?segments"
        by (simp add: Let_def)
      moreover from True have "cappedPath doc (n # up) segments = cappedPath doc up ?segments"
        by (simp add: Let_def)
      ultimately show ?thesis using Cons.IH [of ?segments] by simp
    qed
  qed
qed

text \<open>
  C7, as the claim states it, fails: on a page with two cards of the same shape no prefix of
  the ancestor path of the first \<open>span\<close> is unique within five levels, and \<open>buildSelector\<close>
  returns the full capped path, which matches both \<open>span\<close>s.
\<close>

theorem buildSelector_ambiguous_counterexample:
  "buildSelector page_cards first_span =
     NthPath [(''div'', 1), (''div'', 1), (''div'', 1), (''div'', 1), (''span'', 1)] \<and>
   querySelectorAll page_cards (buildSelector page_cards first_span) =
     [[1, 0, 0, 0, 0, 0, 0], [1, 1, 0, 0, 0, 0, 0]]"
  by code_simp

text \<open>
  C7, amended: the selector \<open>buildSelector\<close> returns for an element of the document matches
  exactly one element of the unchanged document whenever it comes from a verified step: the
  id, the name, the accessible label, the test identifier, the role, or a prefix of the
  ancestor path accepted inside the loop. Otherwise it is the last return of the function,
  the ancestor path capped at five levels (or the bare tag), which is not verified.
\<close>

theorem buildSelector_verified_or_best_effort:
  assumes "node_at doc p = Some e"
  shows "length (querySelectorAll doc (buildSelector doc p)) = 1 \<or>
         buildSelector doc p = joined_or_tag (cappedPath doc (rev p) []) (tagName (info e))"
proof -
  have "isUniqueSelector doc (buildSelector doc p) \<or>
        buildSelector doc p = ancestorWalk doc (tagName (info e)) (rev p) []"
    using assms by (simp add: buildSelector_def Let_def accepted_def)
  with ancestorWalk_unique_or_capped [of doc "tagName (info e)" "rev p" "[]"]
  show ?thesis
    by (auto simp: isUniqueSelector_def)
qed

theorem buildSelector_verified_or_best_effort_witness:
  "node_at page_search [1, 0] \<noteq> None \<and>
   buildSelector page_search [1, 0] = TagAttr ''input'' ''name'' ''q'' \<and>
   querySelectorAll page_search (buildSelector page_search [1, 0]) = [[1, 0]]"
proof -
  have 1: "node_at page_search [1, 0] =
             Some (el ''input'' [(''name'', ''q''), (''placeholder'', ''Search'')] [] [])"
    by code_simp
  have 2: "buildSelector page_search [1, 0] = TagAttr ''input'' ''name'' ''q''"
    by code_simp
  have 3: "querySelectorAll page_search (TagAttr ''input'' ''name'' ''q'') = [[1, 0]]"
    by code_simp
  from buildSelector_verified_or_best_effort [OF 1] 1 2 3 show ?thesis
    by simp
qed

lemma rankCandidate_visible:
  assumes "isVisible i" and "normalizeText (Some queryText) \<noteq> []"
  shows "rankCandidate i queryText \<ge> 10"
  using assms by (simp add: rankCandidate_def Let_def)

text \<open>For a query that is not blank, the filter on the score keeps every visible element.\<close>

lemma ranked_keeps_every_visible:
  assumes "normalizeText (Some query) \<noteq> []"
  shows "length (ranked doc query) =
         min 8 (length (filter (\<lambda>el. isVisible (snd el))
                   (filter (\<lambda>el. isHTMLElement (snd el))
                      (filter (\<lambda>el. allowListed (snd el)) (elements_of doc)))))"
proof -
  let ?vis = "filter (\<lambda>el. isVisible (snd el))
                   (filter (\<lambda>el. isHTMLElement (snd el))
                      (filter (\<lambda>el. allowListed (snd el)) (elements_of doc)))"
  have "filter (\<lambda>item. snd item > 0) (map (\<lambda>el. (el, rankCandidate (snd el) query)) ?vis) =
        map (\<lambda>el. (el, rankCandidate (snd el) query)) ?vis"
  proof (rule filter_True, clarsimp)
    fix p i assume "isVisible i"
    from rankCandidate_visible [OF this assms] show "0 < rankCandidate i query" by simp
  qed
  then show ?thesis
    by (simp add: ranked_def min.commute)
qed

text \<open>
  C8 at a concrete page: the query \<open>search box\<close> on a page with a visible
  \<open><input name="q" placeholder="Search">\<close> and a visible button \<open>Login\<close>. The button matches the
  query nowhere, yet its score is 10, the visibility bonus, and it is returned as a second
  candidate.
\<close>

theorem findCandidates_scenario_A:
  "normalizeText (Some ''search box'') = ''search box'' \<and>
   map snd (ranked page_search ''search box'') = [35, 10] \<and>
   findCandidates page_search ''search box'' =
     [\<lparr>found_id = ''cand-1'', found_label = ''Search'',
       found_selector = TagAttr ''input'' ''name'' ''q''\<rparr>,
      \<lparr>found_id = ''cand-2'', found_label = ''Login'',
       found_selector = NthPath [(''button'', 1)]\<rparr>]"
  by code_simp

section \<open>The broker invariant across the router\<close>

text \<open>
  A new session satisfies the invariant, every event of a session keeps it, and so does every
  inbound envelope: it holds of every session the registry ever holds.
\<close>

lemma broker_inv_router_updates [simp]:
  "broker_inv (s\<lparr>ws := w, token := t\<rparr>) = broker_inv s"
  "broker_inv (s\<lparr>queue := q\<rparr>) = broker_inv s"
  by (rule broker_inv_cong; simp)+

lemma broker_inv_on_user_approval: "broker_inv s \<Longrightarrow> broker_inv (on_user_approval s m)"
  using broker_inv_step [of s "ApprovalReceived m"] by simp

lemma on_message_keeps_invariant:
  assumes "\<forall>sid state. sessions b sid = Some state \<longrightarrow> broker_inv state"
    and "sessions (snd (on_message b socket parsed)) sid = Some state"
  shows "broker_inv state"
proof (cases "normalizeMessage parsed")
  case None
  with assms show ?thesis by (simp add: on_message_def)
next
  case (Some m)
  with assms(2) have r: "sessions (snd (routeMessage b socket m)) sid = Some state"
    by (simp add: on_message_def)
  from assms(1) have inv: "\<And>sid s. sessions b sid = Some s \<Longrightarrow> broker_inv s" by blast
  from r show ?thesis
    by (auto simp: routeMessage_def Let_def getSessionState_def onToolResult_def
        broker_inv_createSessionState broker_inv_cancelRun_begin broker_inv_settle
        broker_inv_on_user_approval inv
        split: if_splits option.splits)
qed

end
